theory Spec2Isabelle
  imports Main "HOL-Library.Sublist" "HOL-Library.AList" "HOL-Library.Code_Target_Nat"
begin

section \<open>JavaScript strings\<close>

text \<open>
  A JavaScript string is a sequence of UTF-16 code units. A code unit is modelled by its
  number, so that the white space that \<^verbatim>\<open>String.prototype.trim\<close> strips beyond ASCII
  (U+00A0, U+2028, U+FEFF, ...) is part of the model. \<open>js\<close> embeds an ASCII literal.
\<close>

type_synonym jsstring = "nat list"

definition js :: "string \<Rightarrow> jsstring" where
  "js s = map of_char s"

abbreviation LF :: nat where "LF \<equiv> 10"
abbreviation colon :: nat where "colon \<equiv> 58"
abbreviation lbracket :: nat where "lbracket \<equiv> 91"
abbreviation rbracket :: nat where "rbracket \<equiv> 93"
abbreviation slash :: nat where "slash \<equiv> 47"

text \<open>
  ECMAScript \<^verbatim>\<open>WhiteSpace\<close> and \<^verbatim>\<open>LineTerminator\<close>: TAB, LF, VT, FF, CR, SP, NBSP,
  U+1680, U+2000 to U+200A, U+2028, U+2029, U+202F, U+205F, U+3000 and U+FEFF.
\<close>

definition isWhiteSpace :: "nat \<Rightarrow> bool" where
  "isWhiteSpace c =
     (c \<in> {9, 10, 11, 12, 13, 32, 160, 5760, 8232, 8233, 8239, 8287, 12288, 65279}
      \<or> (8192 \<le> c \<and> c \<le> 8202))"

text \<open>\<^verbatim>\<open>s.trim()\<close>: white space removed from both ends.\<close>

definition trim :: "jsstring \<Rightarrow> jsstring" where
  "trim s = rev (dropWhile isWhiteSpace (rev (dropWhile isWhiteSpace s)))"

text \<open>
  \<^verbatim>\<open>s.split(sep)\<close> for a separator of one code unit: always at least one piece, the
  pieces hold no separator.
\<close>

fun split :: "nat \<Rightarrow> jsstring \<Rightarrow> jsstring list" where
  "split sep [] = [[]]"
| "split sep (c # cs) =
     (if c = sep then [] # split sep cs
      else (case split sep cs of [] \<Rightarrow> [[c]] | l # ls \<Rightarrow> (c # l) # ls))"

text \<open>
  Text that goes through UTF-8, as \<^verbatim>\<open>String.prototype.toWellFormed\<close> computes it: a
  high surrogate (U+D800 to U+DBFF) followed by a low surrogate (U+DC00 to U+DFFF) is one
  character and stays; every other surrogate code unit has no encoding and becomes
  U+FFFD. This is what Node does to the content that \<^verbatim>\<open>fs.writeFileSync(p, data, 'utf8')\<close>
  writes, to the bytes that \<^verbatim>\<open>fs.readFileSync(p, 'utf8')\<close> reads, and to a path on its
  way to the operating system.
\<close>

definition isHighSurrogate :: "nat \<Rightarrow> bool" where
  "isHighSurrogate c = (55296 \<le> c \<and> c \<le> 56319)"

definition isLowSurrogate :: "nat \<Rightarrow> bool" where
  "isLowSurrogate c = (56320 \<le> c \<and> c \<le> 57343)"

fun toWellFormed :: "jsstring \<Rightarrow> jsstring" where
  "toWellFormed [] = []"
| "toWellFormed [c] = (if isHighSurrogate c \<or> isLowSurrogate c then [65533] else [c])"
| "toWellFormed (c # d # cs) =
     (if isHighSurrogate c \<and> isLowSurrogate d then c # d # toWellFormed cs
      else if isHighSurrogate c \<or> isLowSurrogate c then 65533 # toWellFormed (d # cs)
      else c # toWellFormed (d # cs))"

section \<open>The regular expressions of the parser\<close>

text \<open>
  \<^verbatim>\<open>line.match(re)\<close> without the \<^verbatim>\<open>g\<close> flag tries the start positions from left to
  right and returns the first match. \<open>search m\<close> does that for a matcher \<open>m\<close> anchored
  at the start of its argument.
\<close>

fun search :: "(jsstring \<Rightarrow> 'a option) \<Rightarrow> jsstring \<Rightarrow> 'a option" where
  "search m [] = m []"
| "search m (c # cs) = (case m (c # cs) of Some r \<Rightarrow> Some r | None \<Rightarrow> search m cs)"

definition startsWith :: "jsstring \<Rightarrow> jsstring \<Rightarrow> bool" where
  "startsWith s lit = (take (length lit) s = lit)"

text \<open>
  The capture group \<^verbatim>\<open>([^c]+)\<close> followed by the literal \<^verbatim>\<open>c\<close>. The group is greedy:
  it takes the whole run of code units other than \<open>c\<close>; a shorter run would have to be
  followed by \<open>c\<close> and is not, so backtracking finds nothing else. The match needs a
  run that is not empty and a \<open>c\<close> after it. The result is the group and the text after
  the \<open>c\<close>.
\<close>

definition group_until :: "nat \<Rightarrow> jsstring \<Rightarrow> (jsstring \<times> jsstring) option" where
  "group_until c s =
     (let g = takeWhile (\<lambda>x. x \<noteq> c) s; r = dropWhile (\<lambda>x. x \<noteq> c) s
      in if g = [] \<or> r = [] then None else Some (g, tl r))"

text \<open>\<^verbatim>\<open>/\[LABEL:([^\]]+)\]/\<close>, anchored; \<open>lit\<close> is \<^verbatim>\<open>[LABEL:\<close>.\<close>

definition one_field_at :: "jsstring \<Rightarrow> jsstring \<Rightarrow> jsstring option" where
  "one_field_at lit s =
     (if startsWith s lit then
        (case group_until rbracket (drop (length lit) s) of
           None \<Rightarrow> None
         | Some (g1, r1) \<Rightarrow> Some g1)
      else None)"

text \<open>\<^verbatim>\<open>/\[LABEL:([^:]+):([^\]]+)\]/\<close>, anchored.\<close>

definition two_fields_at :: "jsstring \<Rightarrow> jsstring \<Rightarrow> (jsstring \<times> jsstring) option" where
  "two_fields_at lit s =
     (if startsWith s lit then
        (case group_until colon (drop (length lit) s) of
           None \<Rightarrow> None
         | Some (g1, r1) \<Rightarrow>
             (case group_until rbracket r1 of
                None \<Rightarrow> None
              | Some (g2, r2) \<Rightarrow> Some (g1, g2)))
      else None)"

text \<open>\<^verbatim>\<open>/\[LABEL:([^:]+):([^:]+):([^\]]+)\]/\<close>, anchored.\<close>

definition three_fields_at ::
  "jsstring \<Rightarrow> jsstring \<Rightarrow> (jsstring \<times> jsstring \<times> jsstring) option" where
  "three_fields_at lit s =
     (if startsWith s lit then
        (case group_until colon (drop (length lit) s) of
           None \<Rightarrow> None
         | Some (g1, r1) \<Rightarrow>
             (case group_until colon r1 of
                None \<Rightarrow> None
              | Some (g2, r2) \<Rightarrow>
                  (case group_until rbracket r2 of
                     None \<Rightarrow> None
                   | Some (g3, r3) \<Rightarrow> Some (g1, g2, g3))))
      else None)"

text \<open>\<^verbatim>\<open>/\[\/FILE_CONTENT\]/\<close>, anchored: a literal.\<close>

definition literal_at :: "jsstring \<Rightarrow> jsstring \<Rightarrow> unit option" where
  "literal_at lit s = (if startsWith s lit then Some () else None)"

section \<open>The action model\<close>

text \<open>
  \<^verbatim>\<open>CodeAction\<close> of aiService.ts: the \<^verbatim>\<open>type\<close> is one of seven string literals, the
  fields marked \<^verbatim>\<open>?\<close> are absent (\<open>None\<close>) until assigned.
\<close>

datatype action_type =
  CREATE_FILE | CREATE_DIRECTORY | DELETE_FILE | DELETE_DIRECTORY
  | MOVE_FILE | COPY_FILE | EDIT_FILE

record CodeAction =
  atype :: action_type
  path :: jsstring
  content :: "jsstring option"
  description :: jsstring
  sourcePath :: "jsstring option"
  destinationPath :: "jsstring option"

section \<open>The parser: the loop of suggestCodeActions\<close>

text \<open>
  \<^verbatim>\<open>suggestCodeActions\<close> sends a prompt to the language model and parses the text that
  comes back. The network call is outside the model: the parser is a function of that
  response. The state of the loop is the array \<^verbatim>\<open>actions\<close> and the two variables
  \<^verbatim>\<open>currentContent\<close> and \<^verbatim>\<open>currentFilePath\<close>.
\<close>

record parser_state =
  actions :: "CodeAction list"
  currentContent :: jsstring
  currentFilePath :: jsstring

text \<open>
  The first eight branches of the loop body, in the order of the source: the object that
  the branch pushes, or \<open>None\<close> when none of the eight expressions matches the line.
\<close>

definition header_action :: "jsstring \<Rightarrow> CodeAction option" where
  "header_action line =
    (case search (two_fields_at (js ''[CREATE_FILE:'')) line of
       Some (p, d) \<Rightarrow> Some \<lparr>atype = CREATE_FILE, path = p, content = None, description = d,
                          sourcePath = None, destinationPath = None\<rparr>
     | None \<Rightarrow>
    (case search (two_fields_at (js ''[CREATE_DIRECTORY:'')) line of
       Some (p, d) \<Rightarrow> Some \<lparr>atype = CREATE_DIRECTORY, path = p, content = None, description = d,
                          sourcePath = None, destinationPath = None\<rparr>
     | None \<Rightarrow>
    (case search (two_fields_at (js ''[CREATE_FOLDER:'')) line of
       Some (p, d) \<Rightarrow> Some \<lparr>atype = CREATE_DIRECTORY, path = p, content = None, description = d,
                          sourcePath = None, destinationPath = None\<rparr>
     | None \<Rightarrow>
    (case search (two_fields_at (js ''[DELETE_FILE:'')) line of
       Some (p, d) \<Rightarrow> Some \<lparr>atype = DELETE_FILE, path = p, content = None, description = d,
                          sourcePath = None, destinationPath = None\<rparr>
     | None \<Rightarrow>
    (case search (two_fields_at (js ''[DELETE_DIRECTORY:'')) line of
       Some (p, d) \<Rightarrow> Some \<lparr>atype = DELETE_DIRECTORY, path = p, content = None, description = d,
                          sourcePath = None, destinationPath = None\<rparr>
     | None \<Rightarrow>
    (case search (three_fields_at (js ''[MOVE_FILE:'')) line of
       Some (s, t, d) \<Rightarrow> Some \<lparr>atype = MOVE_FILE, path = s, content = None, description = d,
                             sourcePath = Some s, destinationPath = Some t\<rparr>
     | None \<Rightarrow>
    (case search (three_fields_at (js ''[COPY_FILE:'')) line of
       Some (s, t, d) \<Rightarrow> Some \<lparr>atype = COPY_FILE, path = s, content = None, description = d,
                             sourcePath = Some s, destinationPath = Some t\<rparr>
     | None \<Rightarrow>
    (case search (two_fields_at (js ''[EDIT_FILE:'')) line of
       Some (p, d) \<Rightarrow> Some \<lparr>atype = EDIT_FILE, path = p, content = None, description = d,
                          sourcePath = None, destinationPath = None\<rparr>
     | None \<Rightarrow> None))))))))"

definition fileContentStart :: "jsstring \<Rightarrow> jsstring option" where
  "fileContentStart line = search (one_field_at (js ''[FILE_CONTENT:'')) line"

definition fileContentEnd :: "jsstring \<Rightarrow> bool" where
  "fileContentEnd line = (search (literal_at (js ''[/FILE_CONTENT]'')) line \<noteq> None)"

text \<open>
  \<^verbatim>\<open>actions.filter(a => a.type === 'CREATE_FILE').reverse().find(a => a.path === p)\<close>.
  \<^verbatim>\<open>filter\<close> builds a new array of the same objects, \<^verbatim>\<open>reverse\<close> reverses that new
  array, \<^verbatim>\<open>find\<close> returns its first element with the path. The object found is the one
  in \<^verbatim>\<open>actions\<close>, so each object is paired with its index there.
\<close>

definition lastCreateFileAction :: "CodeAction list \<Rightarrow> jsstring \<Rightarrow> (nat \<times> CodeAction) option" where
  "lastCreateFileAction acts p =
     find (\<lambda>(i, a). path a = p)
       (rev (filter (\<lambda>(i, a). atype a = CREATE_FILE) (enumerate 0 acts)))"

text \<open>
  The body of the loop. After the eight header branches come the opening marker of a
  content block, the closing marker, and the line of content: a line is appended only
  when \<^verbatim>\<open>currentFilePath\<close> is not empty and \<^verbatim>\<open>line.trim()\<close> is not empty.
\<close>

definition parse_line :: "parser_state \<Rightarrow> jsstring \<Rightarrow> parser_state" where
  "parse_line st line =
    (case header_action line of
       Some a \<Rightarrow> st\<lparr>actions := actions st @ [a]\<rparr>
     | None \<Rightarrow>
    (case fileContentStart line of
       Some p \<Rightarrow> st\<lparr>currentFilePath := p, currentContent := []\<rparr>
     | None \<Rightarrow>
    (if fileContentEnd line then
       (case lastCreateFileAction (actions st) (currentFilePath st) of
          Some (i, a) \<Rightarrow>
            \<lparr>actions = (actions st)[i := a\<lparr>content := Some (trim (currentContent st))\<rparr>],
             currentContent = [], currentFilePath = []\<rparr>
        | None \<Rightarrow> st\<lparr>currentFilePath := [], currentContent := []\<rparr>)
     else if currentFilePath st \<noteq> [] \<and> trim line \<noteq> [] then
       st\<lparr>currentContent := currentContent st @ line @ [LF]\<rparr>
     else st)))"

definition suggestCodeActions :: "jsstring \<Rightarrow> CodeAction list" where
  "suggestCodeActions response =
     actions (foldl parse_line \<lparr>actions = [], currentContent = [], currentFilePath = []\<rparr>
                (split LF response))"

section \<open>The scanner of the chat path: parseCodeActions\<close>






section \<open>The grammar of the specification\<close>

text \<open>
  The header grammar of the specification (section 4.1), to compare the expressions of the
  source with: the labels that denote an action type, and the fields of a marker between
  the first colon and the closing bracket.
\<close>

definition spec_marker_labels :: "action_type \<Rightarrow> jsstring list" where
  "spec_marker_labels t =
     (case t of
        CREATE_FILE \<Rightarrow> [js ''CREATE_FILE'']
      | CREATE_DIRECTORY \<Rightarrow> [js ''CREATE_DIRECTORY'', js ''CREATE_FOLDER'']
      | DELETE_FILE \<Rightarrow> [js ''DELETE_FILE'']
      | DELETE_DIRECTORY \<Rightarrow> [js ''DELETE_DIRECTORY'']
      | MOVE_FILE \<Rightarrow> [js ''MOVE_FILE'']
      | COPY_FILE \<Rightarrow> [js ''COPY_FILE'']
      | EDIT_FILE \<Rightarrow> [js ''EDIT_FILE''])"

definition spec_marker_fields :: "CodeAction \<Rightarrow> jsstring" where
  "spec_marker_fields a =
     (case destinationPath a of
        None \<Rightarrow> path a @ [colon] @ description a
      | Some t \<Rightarrow> path a @ [colon] @ t @ [colon] @ description a)"

text \<open>
  The required fields are present and not empty: path and description for every type,
  source and destination for a move or a copy.
\<close>

definition spec_fields_present :: "CodeAction \<Rightarrow> bool" where
  "spec_fields_present a =
     (path a \<noteq> [] \<and> colon \<notin> set (path a) \<and>
      description a \<noteq> [] \<and> rbracket \<notin> set (description a) \<and>
      (if atype a = MOVE_FILE \<or> atype a = COPY_FILE
       then sourcePath a = Some (path a) \<and>
            (case destinationPath a of None \<Rightarrow> False | Some t \<Rightarrow> t \<noteq> [] \<and> colon \<notin> set t)
       else sourcePath a = None \<and> destinationPath a = None))"

text \<open>An action as the header branch pushes it: the content not yet assigned.\<close>

definition no_content :: "CodeAction \<Rightarrow> CodeAction" where
  "no_content a = a\<lparr>content := None\<rparr>"

section \<open>Paths\<close>

text \<open>
  The executor resolves every path with \<^verbatim>\<open>path.join(workspaceFolders[0].uri.fsPath, p)\<close>.
  The model is that of POSIX paths. The root is an absolute, normalised path, given by
  its segments. The result of \<^verbatim>\<open>path.join\<close> is again absolute and normalised: its
  segments, and whether it ends in a separator (which the root directory \<^verbatim>\<open>/\<close> never
  does). Normalisation drops empty segments and \<^verbatim>\<open>.\<close>, and a segment \<^verbatim>\<open>..\<close> removes
  the segment before it, or nothing at the root directory. The only use that the service
  makes of the joined path is to hand it to \<^verbatim>\<open>fs\<close>, which passes it on in UTF-8: the
  segments are kept as the operating system receives them, so that two paths which
  differ only in an unpaired surrogate name the same entry.
\<close>

record fpath =
  segs :: "jsstring list"
  trailing :: bool

definition normalize_step :: "jsstring list \<Rightarrow> jsstring \<Rightarrow> jsstring list" where
  "normalize_step stack seg =
     (if seg = [] \<or> seg = js ''.'' then stack
      else if seg = js ''..'' then butlast stack
      else stack @ [seg])"

definition path_join :: "jsstring list \<Rightarrow> jsstring \<Rightarrow> fpath" where
  "path_join root p =
     (let s = map toWellFormed (foldl normalize_step root (split slash p))
      in \<lparr>segs = s, trailing = (p \<noteq> [] \<and> last p = slash \<and> s \<noteq> [])\<rparr>)"

text \<open>\<^verbatim>\<open>path.dirname\<close> of a normalised absolute path.\<close>

definition dirname :: "fpath \<Rightarrow> fpath" where
  "dirname p = \<lparr>segs = butlast (segs p), trailing = False\<rparr>"

text \<open>
  A path that holds the code unit 0. Node refuses such a path before it reaches the
  operating system: \<^verbatim>\<open>fs.existsSync\<close> answers \<^verbatim>\<open>false\<close> for it, and every other call of
  \<^verbatim>\<open>fs\<close> throws.
\<close>

definition has_nul :: "fpath \<Rightarrow> bool" where
  "has_nul p = list_ex (\<lambda>seg. 0 \<in> set seg) (segs p)"

section \<open>The file system\<close>

text \<open>
  The state that the calls of Node's \<^verbatim>\<open>fs\<close> module read and change: a listing of the
  entries below the root directory, each a regular file with its content or a
  directory. The content of a regular file is the text that its bytes are in UTF-8. The
  root directory always exists. Symbolic links, permissions and the
  other causes of an error of the operating system are outside the model; the errors
  that follow from the kind of an entry (a file where a directory is needed, and the
  reverse) are in it.
\<close>

datatype node = File jsstring | Dir

type_synonym filesystem = "(jsstring list \<times> node) list"

text \<open>
  \<open>Error m\<close> is \<^verbatim>\<open>new Error(m)\<close>, thrown by the service itself; \<open>SystemError\<close> is an
  exception that a call of \<^verbatim>\<open>fs\<close> throws; \<open>EditorError\<close> is the rejection of
  \<^verbatim>\<open>vscode.window.showTextDocument\<close>.
\<close>

datatype error = Error jsstring | SystemError | EditorError

text \<open>The path itself and its ancestors below the root directory.\<close>

definition chain :: "jsstring list \<Rightarrow> jsstring list list" where
  "chain q = filter (\<lambda>r. r \<noteq> []) (prefixes q)"

text \<open>
  What a path names. The ancestors of the path must be directories; a path that ends
  in a separator names a directory only; a path that holds the code unit 0 names
  nothing.
\<close>

definition stat :: "filesystem \<Rightarrow> fpath \<Rightarrow> node option" where
  "stat fs p =
     (if has_nul p then None
      else if segs p = [] then Some Dir
      else if \<not> list_all (\<lambda>q. map_of fs q = Some Dir) (chain (butlast (segs p))) then None
      else (case map_of fs (segs p) of
              None \<Rightarrow> None
            | Some Dir \<Rightarrow> Some Dir
            | Some (File c) \<Rightarrow> (if trailing p then None else Some (File c))))"

definition existsSync :: "filesystem \<Rightarrow> fpath \<Rightarrow> bool" where
  "existsSync fs p = (stat fs p \<noteq> None)"

definition is_file :: "node option \<Rightarrow> bool" where
  "is_file n = (case n of Some (File c) \<Rightarrow> True | _ \<Rightarrow> False)"

text \<open>
  \<^verbatim>\<open>fs.mkdirSync(p, { recursive: true })\<close>: fails when the path holds the code unit 0,
  and when the path or one of its ancestors is a regular file, and creates nothing then;
  otherwise every directory on the way exists afterwards.
\<close>

definition mkdirSync_recursive :: "filesystem \<Rightarrow> fpath \<Rightarrow> (error + unit) \<times> filesystem" where
  "mkdirSync_recursive fs p =
     (if has_nul p \<or> list_ex (\<lambda>q. is_file (map_of fs q)) (chain (segs p))
      then (Inl SystemError, fs)
      else (Inr (), fold (\<lambda>q. AList.update q Dir) (chain (segs p)) fs))"

text \<open>
  Opening a path for writing and storing a content there, the part that
  \<^verbatim>\<open>fs.writeFileSync\<close>, \<^verbatim>\<open>fs.copyFileSync\<close> and \<^verbatim>\<open>fs.renameSync\<close> of a regular file
  share: it replaces the content of a regular file, creates the file in an existing
  directory, and fails on a path that holds the code unit 0, on a directory, on a path
  that ends in a separator and where the parent directory is missing.
\<close>

definition store_file :: "filesystem \<Rightarrow> fpath \<Rightarrow> jsstring \<Rightarrow> (error + unit) \<times> filesystem" where
  "store_file fs p t =
     (if has_nul p then (Inl SystemError, fs)
      else (case stat fs p of
              Some Dir \<Rightarrow> (Inl SystemError, fs)
            | Some (File c) \<Rightarrow> (Inr (), AList.update (segs p) (File t) fs)
            | None \<Rightarrow>
                (if \<not> trailing p \<and> stat fs (dirname p) = Some Dir
                 then (Inr (), AList.update (segs p) (File t) fs)
                 else (Inl SystemError, fs))))"

text \<open>
  \<^verbatim>\<open>fs.writeFileSync(p, data, 'utf8')\<close> encodes the string in UTF-8, and
  \<^verbatim>\<open>fs.readFileSync(p, 'utf8')\<close> decodes the bytes of a regular file: neither lets an
  unpaired surrogate through.
\<close>

definition writeFileSync :: "filesystem \<Rightarrow> fpath \<Rightarrow> jsstring \<Rightarrow> (error + unit) \<times> filesystem" where
  "writeFileSync fs p data = store_file fs p (toWellFormed data)"

definition readFileSync :: "filesystem \<Rightarrow> fpath \<Rightarrow> error + jsstring" where
  "readFileSync fs p =
     (case stat fs p of Some (File c) \<Rightarrow> Inr (toWellFormed c) | _ \<Rightarrow> Inl SystemError)"

definition unlinkSync :: "filesystem \<Rightarrow> fpath \<Rightarrow> (error + unit) \<times> filesystem" where
  "unlinkSync fs p =
     (case stat fs p of
        Some (File c) \<Rightarrow> (Inr (), AList.delete (segs p) fs)
      | _ \<Rightarrow> (Inl SystemError, fs))"

text \<open>
  \<^verbatim>\<open>fs.rmSync(p, { recursive: true, force: true })\<close>: removes the entry and everything
  below it; with \<^verbatim>\<open>force\<close> a missing path is no error, a path that holds the code unit
  0 still is.
\<close>

definition rmSync_recursive_force :: "filesystem \<Rightarrow> fpath \<Rightarrow> (error + unit) \<times> filesystem" where
  "rmSync_recursive_force fs p =
     (if has_nul p then (Inl SystemError, fs)
      else if stat fs p \<noteq> None then (Inr (), filter (\<lambda>(q, n). \<not> prefix (segs p) q) fs)
      else if list_ex (\<lambda>q. is_file (map_of fs q)) (chain (segs p)) then (Inl SystemError, fs)
      else (Inr (), fs))"

text \<open>
  \<^verbatim>\<open>fs.copyFileSync(src, dst)\<close>: the source must be a regular file; its bytes are
  copied as they are.
\<close>

definition copyFileSync :: "filesystem \<Rightarrow> fpath \<Rightarrow> fpath \<Rightarrow> (error + unit) \<times> filesystem" where
  "copyFileSync fs src dst =
     (case stat fs src of
        Some (File c) \<Rightarrow> store_file fs dst c
      | _ \<Rightarrow> (Inl SystemError, fs))"

text \<open>
  \<^verbatim>\<open>fs.renameSync(src, dst)\<close>, as \<^verbatim>\<open>rename(2)\<close>: a regular file replaces a regular file
  at the destination; a directory moves with everything below it, and replaces only an
  empty directory; a directory does not move into itself; renaming a path to itself
  does nothing; a path that holds the code unit 0 is refused.
\<close>

definition move_tree :: "filesystem \<Rightarrow> jsstring list \<Rightarrow> jsstring list \<Rightarrow> filesystem" where
  "move_tree fs src dst =
     map (\<lambda>(q, n). if prefix src q then (dst @ drop (length src) q, n) else (q, n))
       (filter (\<lambda>(q, n). \<not> prefix dst q) fs)"

definition renameSync :: "filesystem \<Rightarrow> fpath \<Rightarrow> fpath \<Rightarrow> (error + unit) \<times> filesystem" where
  "renameSync fs src dst =
     (if has_nul src \<or> has_nul dst then (Inl SystemError, fs)
      else (case stat fs src of
        None \<Rightarrow> (Inl SystemError, fs)
      | Some (File c) \<Rightarrow>
          (if segs src = segs dst \<and> \<not> trailing dst then (Inr (), fs)
           else (case store_file fs dst c of
                   (Inl e, fs1) \<Rightarrow> (Inl e, fs)
                 | (Inr u, fs1) \<Rightarrow> (Inr (), AList.delete (segs src) fs1)))
      | Some Dir \<Rightarrow>
          (if segs src = segs dst then (Inr (), fs)
           else if segs src = [] \<or> prefix (segs src) (segs dst) then (Inl SystemError, fs)
           else (case stat fs \<lparr>segs = segs dst, trailing = False\<rparr> of
                   Some (File c) \<Rightarrow> (Inl SystemError, fs)
                 | Some Dir \<Rightarrow>
                     (if segs dst = [] \<or> list_ex (\<lambda>(q, n). strict_prefix (segs dst) q) fs
                      then (Inl SystemError, fs)
                      else (Inr (), move_tree fs (segs src) (segs dst)))
                 | None \<Rightarrow>
                     (if stat fs (dirname dst) = Some Dir
                      then (Inr (), move_tree fs (segs src) (segs dst))
                      else (Inl SystemError, fs))))))"

section \<open>The executor: the file operations of AIService\<close>

text \<open>
  The host: the file system paths of \<^verbatim>\<open>vscode.workspace.workspaceFolders\<close> (the empty
  list stands for \<^verbatim>\<open>undefined\<close> and for the empty array, which take the same branch),
  and whether \<^verbatim>\<open>vscode.window.showTextDocument\<close> resolves for a path.
\<close>

record host =
  workspaceFolders :: "jsstring list list"
  showTextDocument :: "fpath \<Rightarrow> bool"

text \<open>
  What a method resolves to: a string for six of the methods, a boolean for
  \<^verbatim>\<open>editFile\<close>, whose declared type is \<^verbatim>\<open>Promise<boolean>\<close>.
\<close>

datatype jsvalue = JString jsstring | JBoolean bool

text \<open>
  A method returns its result, or the error it throws, with the file system as it is at
  that moment. A statement that throws ends the method: the \<^verbatim>\<open>catch\<close> block of each
  method logs the error and throws it again.
\<close>

type_synonym 'a outcome = "(error + 'a) \<times> filesystem"

definition and_then :: "'a outcome \<Rightarrow> ('a \<Rightarrow> filesystem \<Rightarrow> 'b outcome) \<Rightarrow> 'b outcome" where
  "and_then r f = (case r of (Inl e, fs) \<Rightarrow> (Inl e, fs) | (Inr x, fs) \<Rightarrow> f x fs)"

definition no_workspace :: error where
  "no_workspace = Error (js ''No workspace folder open'')"

text \<open>
  \<^verbatim>\<open>if (!fs.existsSync(dir)) { fs.mkdirSync(dir, { recursive: true }); }\<close>
\<close>

definition ensure_directory :: "filesystem \<Rightarrow> fpath \<Rightarrow> unit outcome" where
  "ensure_directory fs dir =
     (if \<not> existsSync fs dir then mkdirSync_recursive fs dir else (Inr (), fs))"

text \<open>
  \<^verbatim>\<open>createFile\<close>. Opening the new file in the editor is inside a \<^verbatim>\<open>try\<close> of its own,
  whose \<^verbatim>\<open>catch\<close> only logs: it changes neither the result nor the file system.
\<close>

definition createFile :: "host \<Rightarrow> filesystem \<Rightarrow> jsstring \<Rightarrow> jsstring \<Rightarrow> jsvalue outcome" where
  "createFile h fs filePath content' =
     (case workspaceFolders h of
        [] \<Rightarrow> (Inl no_workspace, fs)
      | root # others \<Rightarrow>
          (let fullPath = path_join root filePath;
               dirPath = dirname fullPath
           in and_then (ensure_directory fs dirPath) (\<lambda>u fs1.
              and_then (writeFileSync fs1 fullPath content') (\<lambda>u fs2.
                (Inr (JString (js ''File '' @ filePath @ js '' created successfully'')), fs2)))))"

definition createDirectory :: "host \<Rightarrow> filesystem \<Rightarrow> jsstring \<Rightarrow> jsvalue outcome" where
  "createDirectory h fs dirPath =
     (case workspaceFolders h of
        [] \<Rightarrow> (Inl no_workspace, fs)
      | root # others \<Rightarrow>
          (let fullPath = path_join root dirPath
           in if existsSync fs fullPath
              then (Inr (JString (js ''Directory '' @ dirPath @ js '' already exists'')), fs)
              else and_then (mkdirSync_recursive fs fullPath) (\<lambda>u fs1.
                (Inr (JString (js ''Directory '' @ dirPath @ js '' created successfully'')), fs1))))"

definition deleteFile :: "host \<Rightarrow> filesystem \<Rightarrow> jsstring \<Rightarrow> jsvalue outcome" where
  "deleteFile h fs filePath =
     (case workspaceFolders h of
        [] \<Rightarrow> (Inl no_workspace, fs)
      | root # others \<Rightarrow>
          (let fullPath = path_join root filePath
           in if \<not> existsSync fs fullPath
              then (Inl (Error (js ''File '' @ filePath @ js '' does not exist'')), fs)
              else and_then (unlinkSync fs fullPath) (\<lambda>u fs1.
                (Inr (JString (js ''File '' @ filePath @ js '' deleted successfully'')), fs1))))"

definition deleteDirectory :: "host \<Rightarrow> filesystem \<Rightarrow> jsstring \<Rightarrow> jsvalue outcome" where
  "deleteDirectory h fs dirPath =
     (case workspaceFolders h of
        [] \<Rightarrow> (Inl no_workspace, fs)
      | root # others \<Rightarrow>
          (let fullPath = path_join root dirPath
           in if \<not> existsSync fs fullPath
              then (Inl (Error (js ''Directory '' @ dirPath @ js '' does not exist'')), fs)
              else and_then (rmSync_recursive_force fs fullPath) (\<lambda>u fs1.
                (Inr (JString (js ''Directory '' @ dirPath @ js '' deleted successfully'')), fs1))))"

definition moveFile :: "host \<Rightarrow> filesystem \<Rightarrow> jsstring \<Rightarrow> jsstring \<Rightarrow> jsvalue outcome" where
  "moveFile h fs sourcePath' destinationPath' =
     (case workspaceFolders h of
        [] \<Rightarrow> (Inl no_workspace, fs)
      | root # others \<Rightarrow>
          (let fullSourcePath = path_join root sourcePath';
               fullDestPath = path_join root destinationPath'
           in if \<not> existsSync fs fullSourcePath
              then (Inl (Error (js ''Source file '' @ sourcePath' @ js '' does not exist'')), fs)
              else and_then (ensure_directory fs (dirname fullDestPath)) (\<lambda>u fs1.
                   and_then (renameSync fs1 fullSourcePath fullDestPath) (\<lambda>u fs2.
                     (Inr (JString (js ''File moved from '' @ sourcePath' @ js '' to ''
                                    @ destinationPath')), fs2)))))"

definition copyFile :: "host \<Rightarrow> filesystem \<Rightarrow> jsstring \<Rightarrow> jsstring \<Rightarrow> jsvalue outcome" where
  "copyFile h fs sourcePath' destinationPath' =
     (case workspaceFolders h of
        [] \<Rightarrow> (Inl no_workspace, fs)
      | root # others \<Rightarrow>
          (let fullSourcePath = path_join root sourcePath';
               fullDestPath = path_join root destinationPath'
           in if \<not> existsSync fs fullSourcePath
              then (Inl (Error (js ''Source file '' @ sourcePath' @ js '' does not exist'')), fs)
              else and_then (ensure_directory fs (dirname fullDestPath)) (\<lambda>u fs1.
                   and_then (copyFileSync fs1 fullSourcePath fullDestPath) (\<lambda>u fs2.
                     (Inr (JString (js ''File copied from '' @ sourcePath' @ js '' to ''
                                    @ destinationPath')), fs2)))))"

text \<open>
  \<^verbatim>\<open>editFile\<close> reads the file, writes the new content and opens the file in the
  editor, here outside any \<^verbatim>\<open>try\<close> of its own: when the editor fails, the method throws
  after the file is written. It returns \<^verbatim>\<open>true\<close>.
\<close>

definition editFile :: "host \<Rightarrow> filesystem \<Rightarrow> jsstring \<Rightarrow> jsstring \<Rightarrow> jsvalue outcome" where
  "editFile h fs filePath content' =
     (case workspaceFolders h of
        [] \<Rightarrow> (Inl no_workspace, fs)
      | root # others \<Rightarrow>
          (let fullPath = path_join root filePath
           in if \<not> existsSync fs fullPath
              then (Inl (Error (js ''File '' @ filePath @ js '' does not exist'')), fs)
              else and_then (readFileSync fs fullPath, fs) (\<lambda>currentContent' fs1.
                   and_then (writeFileSync fs1 fullPath content') (\<lambda>u fs2.
                     if showTextDocument h fullPath then (Inr (JBoolean True), fs2)
                     else (Inl EditorError, fs2)))))"

definition getFileContent :: "host \<Rightarrow> filesystem \<Rightarrow> jsstring \<Rightarrow> jsstring outcome" where
  "getFileContent h fs filePath =
     (case workspaceFolders h of
        [] \<Rightarrow> (Inl no_workspace, fs)
      | root # others \<Rightarrow>
          (let fullPath = path_join root filePath
           in if \<not> existsSync fs fullPath
              then (Inl (Error (js ''File '' @ filePath @ js '' does not exist'')), fs)
              else (readFileSync fs fullPath, fs)))"

section \<open>Example states\<close>

text \<open>
  A parser state with two \<^verbatim>\<open>CREATE_FILE\<close> actions for the path \<^verbatim>\<open>f\<close>, a later action
  of another type for the same path, and an open content block for \<^verbatim>\<open>f\<close>.
\<close>

definition example_state :: parser_state where
  "example_state =
     \<lparr>actions =
        [\<lparr>atype = CREATE_FILE, path = js ''f'', content = None, description = js ''one'',
          sourcePath = None, destinationPath = None\<rparr>,
         \<lparr>atype = CREATE_FILE, path = js ''f'', content = None, description = js ''two'',
          sourcePath = None, destinationPath = None\<rparr>,
         \<lparr>atype = CREATE_DIRECTORY, path = js ''f'', content = None, description = js ''three'',
          sourcePath = None, destinationPath = None\<rparr>],
      currentContent = js ''  x = 1;  '' @ [LF], currentFilePath = js ''f''\<rparr>"

text \<open>
  The scenario of the specification (section 8), and a response whose content block has
  no \<^verbatim>\<open>CREATE_FILE\<close> action before it.
\<close>

definition example_scenario :: jsstring where
  "example_scenario =
     js ''Sure! [CREATE_FILE:src/x.js:add helper]'' @ [LF] @ js ''[FILE_CONTENT:src/x.js]'' @ [LF]
     @ js ''console.log(1);'' @ [LF] @ js ''[/FILE_CONTENT]'' @ [LF] @ js ''Done.''"

definition example_unbound :: jsstring where
  "example_unbound =
     js ''[FILE_CONTENT:nowhere.txt]'' @ [LF] @ js ''lost'' @ [LF] @ js ''[/FILE_CONTENT]''"

text \<open>
  A response with a line of prose, a well-formed marker, a marker that lacks its
  description and a marker that lacks its closing bracket; the action of the second line.
\<close>

definition example_response :: jsstring where
  "example_response =
     js ''Sure!'' @ [LF] @ js ''[MOVE_FILE:a:b:c]'' @ [LF] @ js ''[CREATE_FILE:onlypath]'' @ [LF]
     @ js ''[DELETE_FILE:x:y''"

definition example_move :: CodeAction where
  "example_move = \<lparr>atype = MOVE_FILE, path = js ''a'', content = None, description = js ''c'',
                    sourcePath = Some (js ''a''), destinationPath = Some (js ''b'')\<rparr>"

text \<open>The state after the line \<^verbatim>\<open>[CREATE_FILE:src/x.js:add helper]\<close>.\<close>

definition example_created :: parser_state where
  "example_created =
     \<lparr>actions =
        [\<lparr>atype = CREATE_FILE, path = js ''src/x.js'', content = None,
          description = js ''add helper'', sourcePath = None, destinationPath = None\<rparr>],
      currentContent = [], currentFilePath = []\<rparr>"

text \<open>A response whose content block has the lines \<^verbatim>\<open>a\<close>, an empty line and \<^verbatim>\<open>b\<close>.\<close>

definition example_block :: jsstring where
  "example_block =
     js ''[CREATE_FILE:f:d]'' @ [LF] @ js ''[FILE_CONTENT:f]'' @ [LF] @ js ''a'' @ [LF]
     @ [LF] @ js ''b'' @ [LF] @ js ''[/FILE_CONTENT]''"

text \<open>
  A host with one workspace folder, \<^verbatim>\<open>/work\<close>, in which the editor opens every
  document; and a file system with that folder, a file in it, and a file outside it.
\<close>

definition example_host :: host where
  "example_host = \<lparr>workspaceFolders = [[js ''work'']], showTextDocument = (\<lambda>p. True)\<rparr>"

definition example_fs :: filesystem where
  "example_fs =
     [([js ''work''], Dir),
      ([js ''work'', js ''notes.txt''], File (js ''old'')),
      ([js ''secret.txt''], File (js ''key''))]"


section \<open>Lemmas\<close>

subsection \<open>The expressions and the loop of the parser\<close>

lemma group_until_SomeD:
  assumes "group_until c s = Some (g, r)"
  shows "s = g @ c # r \<and> g \<noteq> [] \<and> c \<notin> set g"
proof -
  let ?g = "takeWhile (\<lambda>x. x \<noteq> c) s" and ?r = "dropWhile (\<lambda>x. x \<noteq> c) s"
  from assms have g: "g = ?g" and r: "r = tl ?r" and ne: "?g \<noteq> []" "?r \<noteq> []"
    by (auto simp: group_until_def Let_def split: if_splits)
  from ne(2) have "hd ?r = c" using hd_dropWhile[of "\<lambda>x. x \<noteq> c" s] by auto
  with ne(2) have "?r = c # tl ?r" by (cases ?r) auto
  moreover have "s = ?g @ ?r" by simp
  moreover have "c \<notin> set ?g" by (auto dest: set_takeWhileD)
  ultimately show ?thesis using g r ne(1) by metis
qed

lemma search_SomeD:
  "search m s = Some r \<Longrightarrow> \<exists>pre post. s = pre @ post \<and> m post = Some r"
proof (induction s)
  case Nil
  then show ?case by simp
next
  case (Cons c cs)
  show ?case
  proof (cases "m (c # cs)")
    case None
    with Cons.prems have "search m cs = Some r" by simp
    from Cons.IH[OF this] obtain pre post where "cs = pre @ post" "m post = Some r" by blast
    then have "c # cs = (c # pre) @ post \<and> m post = Some r" by simp
    then show ?thesis by blast
  next
    case (Some a)
    with Cons.prems have "m (c # cs) = Some r" by simp
    then have "c # cs = [] @ (c # cs) \<and> m (c # cs) = Some r" by simp
    then show ?thesis by blast
  qed
qed

lemma startsWithD: "startsWith s lit \<Longrightarrow> s = lit @ drop (length lit) s"
  by (metis append_take_drop_id startsWith_def)

lemma two_fields_at_SomeD:
  assumes "two_fields_at lit s = Some (p, d)"
  shows "\<exists>post. s = lit @ p @ colon # d @ rbracket # post \<and> p \<noteq> [] \<and> d \<noteq> []
           \<and> colon \<notin> set p \<and> rbracket \<notin> set d"
proof -
  from assms have sw: "startsWith s lit"
    by (auto simp: two_fields_at_def split: if_splits)
  from assms sw obtain r1 r2 where g1: "group_until colon (drop (length lit) s) = Some (p, r1)"
    and g2: "group_until rbracket r1 = Some (d, r2)"
    by (auto simp: two_fields_at_def split: option.splits)
  from group_until_SomeD[OF g1] group_until_SomeD[OF g2] startsWithD[OF sw]
  have "s = lit @ p @ colon # d @ rbracket # r2 \<and> p \<noteq> [] \<and> d \<noteq> []
           \<and> colon \<notin> set p \<and> rbracket \<notin> set d" by simp
  then show ?thesis by blast
qed

lemma three_fields_at_SomeD:
  assumes "three_fields_at lit s = Some (p, q, d)"
  shows "\<exists>post. s = lit @ p @ colon # q @ colon # d @ rbracket # post \<and> p \<noteq> [] \<and> q \<noteq> [] \<and> d \<noteq> []
           \<and> colon \<notin> set p \<and> colon \<notin> set q \<and> rbracket \<notin> set d"
proof -
  from assms have sw: "startsWith s lit"
    by (auto simp: three_fields_at_def split: if_splits)
  from assms sw obtain r1 r2 r3 where g1: "group_until colon (drop (length lit) s) = Some (p, r1)"
    and g2: "group_until colon r1 = Some (q, r2)"
    and g3: "group_until rbracket r2 = Some (d, r3)"
    by (auto simp: three_fields_at_def split: option.splits)
  from group_until_SomeD[OF g1] group_until_SomeD[OF g2] group_until_SomeD[OF g3] startsWithD[OF sw]
  have "s = lit @ p @ colon # q @ colon # d @ rbracket # r3 \<and> p \<noteq> [] \<and> q \<noteq> [] \<and> d \<noteq> []
           \<and> colon \<notin> set p \<and> colon \<notin> set q \<and> rbracket \<notin> set d" by simp
  then show ?thesis by blast
qed

lemma one_field_at_SomeD:
  assumes "one_field_at lit s = Some p"
  shows "\<exists>post. s = lit @ p @ rbracket # post \<and> p \<noteq> [] \<and> rbracket \<notin> set p"
proof -
  from assms have sw: "startsWith s lit"
    by (auto simp: one_field_at_def split: if_splits)
  from assms sw obtain r1 where g1: "group_until rbracket (drop (length lit) s) = Some (p, r1)"
    by (auto simp: one_field_at_def split: option.splits)
  from group_until_SomeD[OF g1] startsWithD[OF sw]
  have "s = lit @ p @ rbracket # r1 \<and> p \<noteq> [] \<and> rbracket \<notin> set p" by simp
  then show ?thesis by blast
qed

lemma lastCreateFileAction_snoc:
  "lastCreateFileAction (xs @ [x]) p =
     (if atype x = CREATE_FILE \<and> path x = p then Some (length xs, x)
      else lastCreateFileAction xs p)"
  by (simp add: lastCreateFileAction_def enumerate_append_eq)

lemma lastCreateFileAction_Some:
  "lastCreateFileAction xs p = Some (i, a) \<Longrightarrow>
     i < length xs \<and> a = xs ! i \<and> atype a = CREATE_FILE \<and> path a = p \<and>
     (\<forall>j. i < j \<and> j < length xs \<longrightarrow> \<not> (atype (xs ! j) = CREATE_FILE \<and> path (xs ! j) = p))"
proof (induction xs rule: rev_induct)
  case Nil
  then show ?case by (simp add: lastCreateFileAction_def)
next
  case (snoc x xs)
  show ?case
  proof (cases "atype x = CREATE_FILE \<and> path x = p")
    case True
    with snoc.prems have "i = length xs" "a = x" by (simp_all add: lastCreateFileAction_snoc)
    with True show ?thesis by auto
  next
    case False
    with snoc.prems have "lastCreateFileAction xs p = Some (i, a)"
      by (simp add: lastCreateFileAction_snoc)
    from snoc.IH[OF this] False show ?thesis
      by (auto simp: nth_append less_Suc_eq)
  qed
qed

lemma lastCreateFileAction_None:
  "lastCreateFileAction xs p = None \<Longrightarrow>
     \<forall>j < length xs. \<not> (atype (xs ! j) = CREATE_FILE \<and> path (xs ! j) = p)"
proof (induction xs rule: rev_induct)
  case Nil
  then show ?case by simp
next
  case (snoc x xs)
  then show ?case
    by (auto simp: lastCreateFileAction_snoc nth_append less_Suc_eq split: if_splits)
qed

lemma search_two_SomeD:
  assumes "search (two_fields_at lit) l = Some (p, d)"
  shows "p \<noteq> [] \<and> colon \<notin> set p \<and> d \<noteq> [] \<and> rbracket \<notin> set d \<and>
         (\<exists>pre post. l = pre @ lit @ p @ [colon] @ d @ [rbracket] @ post)"
proof -
  from search_SomeD[OF assms] obtain pre s where l: "l = pre @ s"
    and m: "two_fields_at lit s = Some (p, d)" by blast
  from two_fields_at_SomeD[OF m] l show ?thesis by auto
qed

lemma search_three_SomeD:
  assumes "search (three_fields_at lit) l = Some (p, q, d)"
  shows "p \<noteq> [] \<and> colon \<notin> set p \<and> q \<noteq> [] \<and> colon \<notin> set q \<and> d \<noteq> [] \<and> rbracket \<notin> set d \<and>
         (\<exists>pre post. l = pre @ lit @ p @ [colon] @ q @ [colon] @ d @ [rbracket] @ post)"
proof -
  from search_SomeD[OF assms] obtain pre s where l: "l = pre @ s"
    and m: "three_fields_at lit s = Some (p, q, d)" by blast
  from three_fields_at_SomeD[OF m] l show ?thesis by auto
qed

lemma fileContentStart_nonempty: "fileContentStart l = Some p \<Longrightarrow> p \<noteq> []"
  unfolding fileContentStart_def
  by (auto dest!: search_SomeD one_field_at_SomeD)

lemma header_action_content: "header_action l = Some a \<Longrightarrow> content a = None"
  by (auto simp: header_action_def split: option.splits)

lemma two_case:
  assumes "search (two_fields_at (js ''['' @ lab @ [colon])) l = Some (p, d)"
    and "lab \<in> set (spec_marker_labels t)" and "t \<noteq> MOVE_FILE" "t \<noteq> COPY_FILE"
    and "a = \<lparr>atype = t, path = p, content = None, description = d,
              sourcePath = None, destinationPath = None\<rparr>"
  shows "spec_fields_present a \<and>
         (\<exists>pre post lab. lab \<in> set (spec_marker_labels (atype a)) \<and>
            l = pre @ js ''['' @ lab @ [colon] @ spec_marker_fields a @ [rbracket] @ post)"
proof -
  from search_two_SomeD[OF assms(1)] obtain pre post where
    f: "p \<noteq> []" "colon \<notin> set p" "d \<noteq> []" "rbracket \<notin> set d"
    and l: "l = pre @ (js ''['' @ lab @ [colon]) @ p @ [colon] @ d @ [rbracket] @ post" by blast
  from f assms(3,4,5) have "spec_fields_present a"
    by (simp add: spec_fields_present_def)
  moreover from l assms(2,5)
  have "lab \<in> set (spec_marker_labels (atype a)) \<and>
        l = pre @ js ''['' @ lab @ [colon] @ spec_marker_fields a @ [rbracket] @ post"
    by (simp add: spec_marker_fields_def)
  ultimately show ?thesis by blast
qed

lemma three_case:
  assumes "search (three_fields_at (js ''['' @ lab @ [colon])) l = Some (p, q, d)"
    and "lab \<in> set (spec_marker_labels t)" and "t = MOVE_FILE \<or> t = COPY_FILE"
    and "a = \<lparr>atype = t, path = p, content = None, description = d,
              sourcePath = Some p, destinationPath = Some q\<rparr>"
  shows "spec_fields_present a \<and>
         (\<exists>pre post lab. lab \<in> set (spec_marker_labels (atype a)) \<and>
            l = pre @ js ''['' @ lab @ [colon] @ spec_marker_fields a @ [rbracket] @ post)"
proof -
  from search_three_SomeD[OF assms(1)] obtain pre post where
    f: "p \<noteq> []" "colon \<notin> set p" "q \<noteq> []" "colon \<notin> set q" "d \<noteq> []" "rbracket \<notin> set d"
    and l: "l = pre @ (js ''['' @ lab @ [colon]) @ p @ [colon] @ q @ [colon] @ d @ [rbracket] @ post"
    by blast
  from f assms(3,4) have "spec_fields_present a"
    by (auto simp: spec_fields_present_def)
  moreover from l assms(2,4)
  have "lab \<in> set (spec_marker_labels (atype a)) \<and>
        l = pre @ js ''['' @ lab @ [colon] @ spec_marker_fields a @ [rbracket] @ post"
    by (simp add: spec_marker_fields_def)
  ultimately show ?thesis by blast
qed

lemma label_literals:
  "js ''[CREATE_FILE:'' = js ''['' @ js ''CREATE_FILE'' @ [colon]"
  "js ''[CREATE_DIRECTORY:'' = js ''['' @ js ''CREATE_DIRECTORY'' @ [colon]"
  "js ''[CREATE_FOLDER:'' = js ''['' @ js ''CREATE_FOLDER'' @ [colon]"
  "js ''[DELETE_FILE:'' = js ''['' @ js ''DELETE_FILE'' @ [colon]"
  "js ''[DELETE_DIRECTORY:'' = js ''['' @ js ''DELETE_DIRECTORY'' @ [colon]"
  "js ''[MOVE_FILE:'' = js ''['' @ js ''MOVE_FILE'' @ [colon]"
  "js ''[COPY_FILE:'' = js ''['' @ js ''COPY_FILE'' @ [colon]"
  "js ''[EDIT_FILE:'' = js ''['' @ js ''EDIT_FILE'' @ [colon]"
  by (simp_all add: js_def)

lemma header_action_sound:
  assumes "header_action l = Some a"
  shows "spec_fields_present a \<and>
         (\<exists>pre post lab. lab \<in> set (spec_marker_labels (atype a)) \<and>
            l = pre @ js ''['' @ lab @ [colon] @ spec_marker_fields a @ [rbracket] @ post)"
proof -
  from assms consider
      (two) lab t p d where
        "search (two_fields_at (js ''['' @ lab @ [colon])) l = Some (p, d)"
        "lab \<in> set (spec_marker_labels t)" "t \<noteq> MOVE_FILE" "t \<noteq> COPY_FILE"
        "a = \<lparr>atype = t, path = p, content = None, description = d,
              sourcePath = None, destinationPath = None\<rparr>"
    | (three) lab t p q d where
        "search (three_fields_at (js ''['' @ lab @ [colon])) l = Some (p, q, d)"
        "lab \<in> set (spec_marker_labels t)" "t = MOVE_FILE \<or> t = COPY_FILE"
        "a = \<lparr>atype = t, path = p, content = None, description = d,
              sourcePath = Some p, destinationPath = Some q\<rparr>"
    unfolding header_action_def label_literals
    by (auto split: option.splits simp: spec_marker_labels_def)
  then show ?thesis
  proof cases
    case two
    then show ?thesis by (rule two_case)
  next
    case three
    then show ?thesis by (rule three_case)
  qed
qed

lemma parse_line_headers:
  "map no_content (actions (parse_line st l)) =
     map no_content (actions st) @ (case header_action l of None \<Rightarrow> [] | Some a \<Rightarrow> [a])"
proof (cases "header_action l")
  case (Some a)
  then show ?thesis
    by (simp add: parse_line_def no_content_def header_action_content)
next
  case None
  have upd: "map no_content (xs[i := a\<lparr>content := c\<rparr>]) = map no_content xs"
    if "i < length xs" "a = xs ! i" for xs i a c
    using that by (simp add: map_update no_content_def list_update_same_conv)
  show ?thesis using None
    by (auto simp: parse_line_def upd split: option.splits dest!: lastCreateFileAction_Some)
qed

lemma foldl_parse_line_headers:
  "map no_content (actions (foldl parse_line st ls)) =
     map no_content (actions st) @ List.map_filter header_action ls"
proof (induction ls arbitrary: st)
  case Nil
  then show ?case by simp
next
  case (Cons l ls)
  show ?case
    by (simp add: Cons.IH parse_line_headers split: option.splits)
qed

lemma suggestCodeActions_headers:
  "map no_content (suggestCodeActions response) = List.map_filter header_action (split LF response)"
  by (simp add: suggestCodeActions_def foldl_parse_line_headers)

lemma close_step:
  assumes "header_action line = None" "fileContentStart line = None" "fileContentEnd line"
  shows "parse_line st line =
     \<lparr>actions = (case lastCreateFileAction (actions st) (currentFilePath st) of
                   None \<Rightarrow> actions st
                 | Some (i, a) \<Rightarrow> (actions st)[i := a\<lparr>content := Some (trim (currentContent st))\<rparr>]),
      currentContent = [], currentFilePath = []\<rparr>"
  using assms by (simp add: parse_line_def split: option.splits)

lemma content_lines:
  assumes "currentFilePath st \<noteq> []"
    and "\<forall>l\<in>set ls. header_action l = None \<and> fileContentStart l = None \<and> \<not> fileContentEnd l"
  shows "foldl parse_line st ls =
     st\<lparr>currentContent := currentContent st @ concat (map (\<lambda>l. l @ [LF]) (filter (\<lambda>l. trim l \<noteq> []) ls))\<rparr>"
  using assms
proof (induction ls arbitrary: st)
  case Nil
  then show ?case by simp
next
  case (Cons l ls)
  from Cons.prems have pl: "parse_line st l =
     (if trim l \<noteq> [] then st\<lparr>currentContent := currentContent st @ l @ [LF]\<rparr> else st)"
    by (simp add: parse_line_def)
  from Cons.prems have rest: "\<forall>l\<in>set ls. header_action l = None \<and> fileContentStart l = None \<and> \<not> fileContentEnd l"
    by simp
  show ?case
  proof (cases "trim l \<noteq> []")
    case True
    with pl have "parse_line st l = st\<lparr>currentContent := currentContent st @ l @ [LF]\<rparr>" by simp
    moreover from Cons.prems(1) have "currentFilePath (st\<lparr>currentContent := currentContent st @ l @ [LF]\<rparr>) \<noteq> []"
      by simp
    ultimately show ?thesis using Cons.IH[OF _ rest, of "st\<lparr>currentContent := currentContent st @ l @ [LF]\<rparr>"] True
      by simp
  next
    case False
    with pl have "parse_line st l = st" by simp
    with Cons.IH[OF Cons.prems(1) rest] False show ?thesis by simp
  qed
qed

lemma content_block_fold:
  assumes o: "header_action opening = None" "fileContentStart opening = Some p"
    and b: "\<forall>l\<in>set body. header_action l = None \<and> fileContentStart l = None \<and> \<not> fileContentEnd l"
    and c: "header_action closing = None" "fileContentStart closing = None" "fileContentEnd closing"
    and t: "lastCreateFileAction (actions st) p = Some (i, a)"
  shows "foldl parse_line st (opening # body @ [closing]) =
     \<lparr>actions = (actions st)[i := a\<lparr>content :=
         Some (trim (concat (map (\<lambda>l. l @ [LF]) (filter (\<lambda>l. trim l \<noteq> []) body))))\<rparr>],
      currentContent = [], currentFilePath = []\<rparr>"
proof -
  let ?st1 = "st\<lparr>currentFilePath := p, currentContent := []\<rparr>"
  from o have s1: "parse_line st opening = ?st1" by (simp add: parse_line_def)
  from fileContentStart_nonempty[OF o(2)] have "currentFilePath ?st1 \<noteq> []" by simp
  from content_lines[OF this b] have s2: "foldl parse_line ?st1 body =
     ?st1\<lparr>currentContent := concat (map (\<lambda>l. l @ [LF]) (filter (\<lambda>l. trim l \<noteq> []) body))\<rparr>"
    by simp
  show ?thesis
    by (simp add: s1 s2 close_step[OF c] t)
qed

lemma two_colons:
  assumes "line = pre @ js ''['' @ lab @ [colon] @ spec_marker_fields a @ [rbracket] @ post"
  shows "2 \<le> count_list line colon \<and> rbracket \<in> set line \<and> lbracket \<in> set line"
proof -
  have "1 \<le> count_list (spec_marker_fields a) colon"
    by (simp add: spec_marker_fields_def split: option.splits)
  with assms show ?thesis by (simp add: js_def)
qed

lemma three_colons:
  assumes "spec_fields_present a"
    and "line = pre @ js ''['' @ lab @ [colon] @ spec_marker_fields a @ [rbracket] @ post"
    and "atype a = MOVE_FILE \<or> atype a = COPY_FILE"
  shows "3 \<le> count_list line colon"
proof -
  from assms(1,3) obtain t where "destinationPath a = Some t"
    by (auto simp: spec_fields_present_def split: option.splits)
  then have "2 \<le> count_list (spec_marker_fields a) colon"
    by (simp add: spec_marker_fields_def)
  with assms(2) show ?thesis by (simp add: js_def)
qed

lemma lastCreateFileAction_eq:
  assumes "i < length xs" "atype (xs ! i) = CREATE_FILE" "path (xs ! i) = p"
    and "\<forall>j. i < j \<and> j < length xs \<longrightarrow> \<not> (atype (xs ! j) = CREATE_FILE \<and> path (xs ! j) = p)"
  shows "lastCreateFileAction xs p = Some (i, xs ! i)"
proof (cases "lastCreateFileAction xs p")
  case None
  from lastCreateFileAction_None[OF None] assms(1,2,3) show ?thesis by blast
next
  case (Some ka)
  obtain k a where ka: "ka = (k, a)" by (cases ka)
  from lastCreateFileAction_Some[OF Some[unfolded ka]]
  have k: "k < length xs" "a = xs ! k" "atype (xs ! k) = CREATE_FILE" "path (xs ! k) = p"
    and mx: "\<forall>j. k < j \<and> j < length xs \<longrightarrow> \<not> (atype (xs ! j) = CREATE_FILE \<and> path (xs ! j) = p)"
    by auto
  have "k = i"
  proof (rule ccontr)
    assume "k \<noteq> i"
    then consider "k < i" | "i < k" by linarith
    then show False
    proof cases
      case 1
      with mx assms(1,2,3) show False by blast
    next
      case 2
      with assms(4) k show False by blast
    qed
  qed
  with Some ka k show ?thesis by simp
qed

subsection \<open>The file system and the methods of the service\<close>

lemma and_then_Inr:
  "and_then r f = (Inr v, fs') \<longleftrightarrow> (\<exists>x fs1. r = (Inr x, fs1) \<and> f x fs1 = (Inr v, fs'))"
  by (cases r) (auto simp: and_then_def split: sum.splits)

lemma and_then_simps:
  "and_then (Inl e, fs) f = (Inl e, fs)"
  "and_then (Inr x, fs) f = f x fs"
  by (simp_all add: and_then_def)

lemma map_of_fold_update:
  "map_of (fold (\<lambda>q. AList.update q v) qs fs) k = (if k \<in> set qs then Some v else map_of fs k)"
  by (induction qs arbitrary: fs) (auto simp: update_conv')

lemma chain_Nil [simp]: "chain [] = []"
  by (simp add: chain_def)

lemma set_chain: "set (chain q) = {r. r \<noteq> [] \<and> prefix r q}"
  by (auto simp: chain_def)

lemma self_in_chain: "q \<noteq> [] \<Longrightarrow> q \<in> set (chain q)"
  by (simp add: set_chain)

lemma butlast_notin_chain: "q \<noteq> [] \<Longrightarrow> q \<notin> set (chain (butlast q))"
proof
  assume "q \<noteq> []" "q \<in> set (chain (butlast q))"
  then have "prefix q (butlast q)" by (simp add: set_chain)
  then have "length q \<le> length (butlast q)" by (rule prefix_length_le)
  with \<open>q \<noteq> []\<close> show False by (cases q rule: rev_cases) simp_all
qed

lemma toWellFormed_plain:
  "\<not> isHighSurrogate c \<Longrightarrow> \<not> isLowSurrogate c \<Longrightarrow> toWellFormed (c # s) = c # toWellFormed s"
  by (cases s) simp_all

lemma toWellFormed_idem: "toWellFormed (toWellFormed s) = toWellFormed s"
  by (induction s rule: toWellFormed.induct)
    (auto simp: toWellFormed_plain isHighSurrogate_def isLowSurrogate_def)

lemma toWellFormed_no_surrogate:
  "list_all (\<lambda>x. \<not> isHighSurrogate x \<and> \<not> isLowSurrogate x) s \<Longrightarrow> toWellFormed s = s"
  by (induction s) (simp_all add: toWellFormed_plain)

lemma has_nul_dirname: "\<not> has_nul p \<Longrightarrow> \<not> has_nul (dirname p)"
  by (auto simp: has_nul_def dirname_def list_ex_iff dest: in_set_butlastD)

lemma has_nul_segs [simp]: "has_nul \<lparr>segs = segs p, trailing = t\<rparr> = has_nul p"
  by (simp add: has_nul_def)

lemma stat_root [simp]: "segs p = [] \<Longrightarrow> stat fs p = Some Dir"
  by (simp add: stat_def has_nul_def)

lemma stat_no_nul: "stat fs p \<noteq> None \<Longrightarrow> \<not> has_nul p"
  by (auto simp: stat_def)

lemma chain_snoc: "chain (xs @ [x]) = chain xs @ [xs @ [x]]"
  by (simp add: chain_def)

lemma chain_nonempty: "q \<noteq> [] \<Longrightarrow> chain q = chain (butlast q) @ [q]"
  using chain_snoc[of "butlast q" "last q"] by simp

lemma stat_Dir_iff:
  "stat fs p = Some Dir \<longleftrightarrow>
     \<not> has_nul p \<and> list_all (\<lambda>q. map_of fs q = Some Dir) (chain (segs p))"
proof (cases "segs p = []")
  case True
  then show ?thesis by (simp add: has_nul_def)
next
  case False
  then show ?thesis
    by (auto simp: stat_def chain_nonempty split: option.splits node.splits)
qed

lemma stat_ancestors:
  "stat fs p \<noteq> None \<Longrightarrow> list_all (\<lambda>q. map_of fs q = Some Dir) (chain (butlast (segs p)))"
  by (cases "segs p = []") (auto simp: stat_def split: if_splits)

lemma stat_parent: "stat fs p \<noteq> None \<Longrightarrow> stat fs (dirname p) = Some Dir"
  using has_nul_dirname[of p] stat_no_nul[of fs p] stat_ancestors[of fs p]
  by (simp add: stat_Dir_iff) (simp add: dirname_def)

lemma stat_update_file:
  assumes "segs p \<noteq> []" "\<not> trailing p" "\<not> has_nul p"
    and "list_all (\<lambda>q. map_of fs q = Some Dir) (chain (butlast (segs p)))"
  shows "stat (AList.update (segs p) (File c) fs) p = Some (File c)"
proof -
  have "map_of (AList.update (segs p) (File c) fs) q = Some Dir"
    if "q \<in> set (chain (butlast (segs p)))" for q
  proof -
    from that assms(1) have "q \<noteq> segs p" using butlast_notin_chain by blast
    with that assms(4) show ?thesis by (simp add: update_conv' list_all_iff)
  qed
  then have "list_all (\<lambda>q. map_of (AList.update (segs p) (File c) fs) q = Some Dir)
               (chain (butlast (segs p)))"
    by (simp add: list_all_iff)
  with assms(1,2,3) show ?thesis by (simp add: stat_def update_conv')
qed

lemma store_file_ok:
  assumes "store_file fs p c = (Inr u, fs')"
  shows "fs' = AList.update (segs p) (File c) fs \<and> stat fs' p = Some (File c)"
proof -
  from assms have nn: "\<not> has_nul p" by (auto simp: store_file_def split: if_splits)
  show ?thesis
  proof (cases "stat fs p")
    case None
    with assms nn have nt: "\<not> trailing p" and par: "stat fs (dirname p) = Some Dir"
      and fs': "fs' = AList.update (segs p) (File c) fs"
      by (auto simp: store_file_def split: if_splits)
    from None nn have ne: "segs p \<noteq> []" by (auto simp: stat_def)
    from par have "list_all (\<lambda>q. map_of fs q = Some Dir) (chain (butlast (segs p)))"
      by (simp add: stat_Dir_iff dirname_def)
    from stat_update_file[OF ne nt nn this] fs' show ?thesis by simp
  next
    case (Some n)
    show ?thesis
    proof (cases n)
      case (File old)
      with Some assms nn have fs': "fs' = AList.update (segs p) (File c) fs"
        by (simp add: store_file_def)
      from Some File have ne: "segs p \<noteq> []" and nt: "\<not> trailing p"
        by (auto simp: stat_def split: if_splits option.splits node.splits)
      from Some have "list_all (\<lambda>q. map_of fs q = Some Dir) (chain (butlast (segs p)))"
        by (intro stat_ancestors) simp
      from stat_update_file[OF ne nt nn this] fs' show ?thesis by simp
    next
      case Dir
      with Some assms nn show ?thesis by (simp add: store_file_def)
    qed
  qed
qed


lemma writeFileSync_ok:
  assumes "writeFileSync fs p c = (Inr u, fs')"
  shows "fs' = AList.update (segs p) (File (toWellFormed c)) fs \<and>
         stat fs' p = Some (File (toWellFormed c))"
  using assms unfolding writeFileSync_def by (rule store_file_ok)

lemma mkdirSync_recursive_ok:
  assumes "mkdirSync_recursive fs p = (Inr u, fs')"
  shows "stat fs' \<lparr>segs = segs p, trailing = t\<rparr> = Some Dir"
    and "k \<notin> set (chain (segs p)) \<Longrightarrow> map_of fs' k = map_of fs k"
proof -
  from assms have fs': "fs' = fold (\<lambda>q. AList.update q Dir) (chain (segs p)) fs"
    and nn: "\<not> has_nul p"
    by (auto simp: mkdirSync_recursive_def split: if_splits)
  show "stat fs' \<lparr>segs = segs p, trailing = t\<rparr> = Some Dir"
    by (simp add: stat_Dir_iff fs' nn map_of_fold_update list_all_iff)
  show "map_of fs' k = map_of fs k" if "k \<notin> set (chain (segs p))"
    using that by (simp add: fs' map_of_fold_update)
qed

lemma mkdirSync_recursive_succeeds:
  "\<not> has_nul p \<Longrightarrow> \<not> list_ex (\<lambda>q. is_file (map_of fs q)) (chain (segs p)) \<Longrightarrow>
     mkdirSync_recursive fs p = (Inr (), fold (\<lambda>q. AList.update q Dir) (chain (segs p)) fs)"
  by (simp add: mkdirSync_recursive_def)

lemma createFile_result:
  assumes "createFile h fs p c = (Inr v, fs')"
  shows "\<exists>root others. workspaceFolders h = root # others \<and>
           v = JString (js ''File '' @ p @ js '' created successfully'') \<and>
           stat fs' (path_join root p) = Some (File (toWellFormed c)) \<and>
           stat fs' (dirname (path_join root p)) = Some Dir"
proof (cases "workspaceFolders h")
  case Nil
  with assms show ?thesis by (simp add: createFile_def)
next
  case (Cons root others)
  with assms obtain fs1 u2 where
    w: "writeFileSync fs1 (path_join root p) c = (Inr u2, fs')"
    and v: "v = JString (js ''File '' @ p @ js '' created successfully'')"
    by (auto simp: createFile_def Let_def and_then_Inr)
  from writeFileSync_ok[OF w] have st: "stat fs' (path_join root p) = Some (File (toWellFormed c))"
    by (rule conjunct2)
  then have "stat fs' (dirname (path_join root p)) = Some Dir" by (intro stat_parent) simp
  with Cons v st show ?thesis by simp
qed

lemma getFileContent_file:
  assumes "workspaceFolders h = root # others" "stat fs (path_join root p) = Some (File c)"
  shows "getFileContent h fs p = (Inr (toWellFormed c), fs)"
  using assms by (simp add: getFileContent_def existsSync_def readFileSync_def)

lemma createFile_succeeds:
  assumes wf: "workspaceFolders h = root # others"
    and nn: "\<not> has_nul (path_join root p)"
    and ne: "segs (path_join root p) \<noteq> []" and nt: "\<not> trailing (path_join root p)"
    and anc: "\<not> list_ex (\<lambda>q. is_file (map_of fs q)) (chain (butlast (segs (path_join root p))))"
    and tgt: "map_of fs (segs (path_join root p)) \<noteq> Some Dir"
  shows "\<exists>fs'. createFile h fs p c =
           (Inr (JString (js ''File '' @ p @ js '' created successfully'')), fs')"
proof -
  let ?full = "path_join root p" and ?d = "dirname (path_join root p)"
  have segs_d: "segs ?d = butlast (segs ?full)" by (simp add: dirname_def)
  from nn have nd: "\<not> has_nul ?d" by (rule has_nul_dirname)
  obtain fs1 where e: "ensure_directory fs ?d = (Inr (), fs1)"
    and d1: "stat fs1 ?d = Some Dir" and t1: "map_of fs1 (segs ?full) = map_of fs (segs ?full)"
  proof (cases "existsSync fs ?d")
    case True
    then obtain n where n: "stat fs ?d = Some n" by (auto simp: existsSync_def)
    have "n = Dir"
    proof (cases n)
      case (File x)
      with n have "segs ?d \<noteq> []" "map_of fs (segs ?d) = Some (File x)"
        by (auto simp: stat_def split: if_splits option.splits node.splits)
      then have "segs ?d \<in> set (chain (segs ?d))" "is_file (map_of fs (segs ?d))"
        by (simp_all add: self_in_chain is_file_def)
      with anc show ?thesis by (auto simp: segs_d list_ex_iff)
    qed simp
    with True n that[of fs] show ?thesis by (simp add: ensure_directory_def)
  next
    case False
    from nd anc have m: "mkdirSync_recursive fs ?d =
        (Inr (), fold (\<lambda>q. AList.update q Dir) (chain (segs ?d)) fs)"
      by (intro mkdirSync_recursive_succeeds) (simp_all add: segs_d)
    from mkdirSync_recursive_ok(1)[OF m, of False]
    have "stat (fold (\<lambda>q. AList.update q Dir) (chain (segs ?d)) fs) ?d = Some Dir"
      by (simp add: dirname_def)
    moreover from ne have "segs ?full \<notin> set (chain (segs ?d))"
      by (simp add: segs_d butlast_notin_chain)
    from mkdirSync_recursive_ok(2)[OF m this]
    have "map_of (fold (\<lambda>q. AList.update q Dir) (chain (segs ?d)) fs) (segs ?full)
            = map_of fs (segs ?full)" .
    ultimately show ?thesis using False m that by (simp add: ensure_directory_def)
  qed
  have "\<exists>fs'. writeFileSync fs1 ?full c = (Inr (), fs')"
  proof (cases "stat fs1 ?full")
    case None
    with nt nn d1 show ?thesis by (simp add: writeFileSync_def store_file_def)
  next
    case (Some n)
    from Some ne tgt t1 have "n \<noteq> Dir"
      by (auto simp: stat_def split: if_splits option.splits node.splits)
    with Some nn show ?thesis by (cases n) (simp_all add: writeFileSync_def store_file_def)
  qed
  then obtain fs' where "writeFileSync fs1 ?full c = (Inr (), fs')" by blast
  with wf e show ?thesis by (simp add: createFile_def Let_def and_then_simps)
qed






lemma editFile_existing:
  assumes "workspaceFolders h = root # others" "stat fs (path_join root p) = Some (File old)"
  shows "editFile h fs p c =
     (if showTextDocument h (path_join root p) then Inr (JBoolean True) else Inl EditorError,
      AList.update (segs (path_join root p)) (File (toWellFormed c)) fs)"
    and "stat (AList.update (segs (path_join root p)) (File (toWellFormed c)) fs)
           (path_join root p) = Some (File (toWellFormed c))"
proof -
  let ?full = "path_join root p"
  from assms(2) have nn: "\<not> has_nul ?full" by (intro stat_no_nul[of fs]) simp
  with assms(2) have w: "writeFileSync fs ?full c =
      (Inr (), AList.update (segs ?full) (File (toWellFormed c)) fs)"
    by (simp add: writeFileSync_def store_file_def)
  from writeFileSync_ok[OF w]
  show "stat (AList.update (segs ?full) (File (toWellFormed c)) fs) ?full
          = Some (File (toWellFormed c))"
    by simp
  from assms w show "editFile h fs p c =
     (if showTextDocument h ?full then Inr (JBoolean True) else Inl EditorError,
      AList.update (segs ?full) (File (toWellFormed c)) fs)"
    by (simp add: editFile_def existsSync_def readFileSync_def and_then_simps)
qed

lemma editFile_missing:
  assumes "workspaceFolders h = root # others" "\<not> existsSync fs (path_join root p)"
  shows "editFile h fs p c = (Inl (Error (js ''File '' @ p @ js '' does not exist'')), fs)"
  using assms by (simp add: editFile_def)

lemma deleteFile_missing:
  assumes "workspaceFolders h = root # others" "\<not> existsSync fs (path_join root p)"
  shows "deleteFile h fs p = (Inl (Error (js ''File '' @ p @ js '' does not exist'')), fs)"
  using assms by (simp add: deleteFile_def)

lemma deleteDirectory_missing:
  assumes "workspaceFolders h = root # others" "\<not> existsSync fs (path_join root p)"
  shows "deleteDirectory h fs p =
           (Inl (Error (js ''Directory '' @ p @ js '' does not exist'')), fs)"
  using assms by (simp add: deleteDirectory_def)

lemma moveFile_missing:
  assumes "workspaceFolders h = root # others" "\<not> existsSync fs (path_join root s)"
  shows "moveFile h fs s d =
           (Inl (Error (js ''Source file '' @ s @ js '' does not exist'')), fs)"
  using assms by (simp add: moveFile_def)

lemma copyFile_missing:
  assumes "workspaceFolders h = root # others" "\<not> existsSync fs (path_join root s)"
  shows "copyFile h fs s d =
           (Inl (Error (js ''Source file '' @ s @ js '' does not exist'')), fs)"
  using assms by (simp add: copyFile_def)







lemma method_results:
  "createFile h fs p c = (Inr v, fs') \<Longrightarrow>
     v = JString (js ''File '' @ p @ js '' created successfully'')"
  "createDirectory h fs p = (Inr v, fs') \<Longrightarrow>
     v = JString (js ''Directory '' @ p @ js '' already exists'') \<or>
     v = JString (js ''Directory '' @ p @ js '' created successfully'')"
  "deleteFile h fs p = (Inr v, fs') \<Longrightarrow>
     v = JString (js ''File '' @ p @ js '' deleted successfully'')"
  "deleteDirectory h fs p = (Inr v, fs') \<Longrightarrow>
     v = JString (js ''Directory '' @ p @ js '' deleted successfully'')"
  "moveFile h fs s d = (Inr v, fs') \<Longrightarrow>
     v = JString (js ''File moved from '' @ s @ js '' to '' @ d)"
  "copyFile h fs s d = (Inr v, fs') \<Longrightarrow>
     v = JString (js ''File copied from '' @ s @ js '' to '' @ d)"
  "editFile h fs p c = (Inr v, fs') \<Longrightarrow> v = JBoolean True"
  by (auto simp: createFile_def createDirectory_def deleteFile_def deleteDirectory_def moveFile_def
        copyFile_def editFile_def Let_def and_then_Inr split: list.splits if_splits)

subsection \<open>The scanner of the chat path\<close>




lemma two_fields_at_other:
  "c \<noteq> lbracket \<Longrightarrow> two_fields_at (lbracket # lit) (c # s) = None"
  by (simp add: two_fields_at_def startsWith_def)













section \<open>The parser: content blocks\<close>

text \<open>
  C1. When the loop reaches the branch of the closing marker (the line matches no header
  marker and no opening marker, and holds \<^verbatim>\<open>[/FILE_CONTENT]\<close>), the trimmed buffer
  becomes the content of the last action of type \<^verbatim>\<open>CREATE_FILE\<close> whose path is the
  path of the block: of the positions that hold such an action, the greatest. Every
  other action is unchanged. When no position holds such an action, all actions are
  unchanged: the buffer is dropped. In both cases no action is added and the buffer and
  the path of the block are reset.
\<close>

theorem close_marker_binds_last_create_file:
  assumes "header_action line = None" "fileContentStart line = None" "fileContentEnd line"
  shows "currentContent (parse_line st line) = [] \<and> currentFilePath (parse_line st line) = [] \<and>
     length (actions (parse_line st line)) = length (actions st) \<and>
     (\<forall>i < length (actions st).
        actions (parse_line st line) ! i =
          (if atype (actions st ! i) = CREATE_FILE \<and> path (actions st ! i) = currentFilePath st \<and>
              (\<forall>j. i < j \<and> j < length (actions st) \<longrightarrow>
                 \<not> (atype (actions st ! j) = CREATE_FILE \<and> path (actions st ! j) = currentFilePath st))
           then (actions st ! i)\<lparr>content := Some (trim (currentContent st))\<rparr>
           else actions st ! i))"
proof -
  define hit where "hit i \<longleftrightarrow> atype (actions st ! i) = CREATE_FILE \<and>
      path (actions st ! i) = currentFilePath st" for i
  define target where "target i \<longleftrightarrow> hit i \<and> (\<forall>j. i < j \<and> j < length (actions st) \<longrightarrow> \<not> hit j)" for i
  have nth: "actions (parse_line st line) ! i =
      (if target i then (actions st ! i)\<lparr>content := Some (trim (currentContent st))\<rparr>
       else actions st ! i)" if i: "i < length (actions st)" for i
  proof (cases "lastCreateFileAction (actions st) (currentFilePath st)")
    case None
    from lastCreateFileAction_None[OF None] i have "\<not> hit i" by (simp add: hit_def)
    then have "\<not> target i" by (simp add: target_def)
    then show ?thesis by (simp add: close_step[OF assms] None)
  next
    case (Some ia)
    obtain k a where ia: "ia = (k, a)" by (cases ia)
    from lastCreateFileAction_Some[OF Some[unfolded ia]]
    have k: "k < length (actions st)" "a = actions st ! k" "hit k"
      and mx: "\<forall>j. k < j \<and> j < length (actions st) \<longrightarrow> \<not> hit j"
      by (auto simp: hit_def)
    show ?thesis
    proof (cases "i = k")
      case True
      with k mx have "target i" by (simp add: target_def)
      with True k show ?thesis by (simp add: close_step[OF assms] Some ia)
    next
      case False
      have "\<not> target i"
      proof (cases "i < k")
        case True
        with k show ?thesis unfolding target_def by blast
      next
        case ge: False
        with False have "k < i" by simp
        with mx i show ?thesis unfolding target_def by blast
      qed
      with False show ?thesis by (simp add: close_step[OF assms] Some ia)
    qed
  qed
  have len: "length (actions (parse_line st line)) = length (actions st)"
    by (simp add: close_step[OF assms] split: option.splits)
  have rst: "currentContent (parse_line st line) = []" "currentFilePath (parse_line st line) = []"
    by (simp_all add: close_step[OF assms])
  from nth len rst show ?thesis unfolding target_def hit_def by simp
qed

theorem close_marker_binds_last_create_file_witness:
  "header_action (js ''[/FILE_CONTENT]'') = None \<and>
   fileContentStart (js ''[/FILE_CONTENT]'') = None \<and>
   fileContentEnd (js ''[/FILE_CONTENT]'') \<and>
   length (actions (parse_line example_state (js ''[/FILE_CONTENT]''))) = 3 \<and>
   actions (parse_line example_state (js ''[/FILE_CONTENT]'')) ! 0 = actions example_state ! 0 \<and>
   actions (parse_line example_state (js ''[/FILE_CONTENT]'')) ! 1 =
     (actions example_state ! 1)\<lparr>content := Some (js ''x = 1;'')\<rparr> \<and>
   actions (parse_line example_state (js ''[/FILE_CONTENT]'')) ! 2 = actions example_state ! 2 \<and>
   suggestCodeActions example_scenario =
     [\<lparr>atype = CREATE_FILE, path = js ''src/x.js'', content = Some (js ''console.log(1);''),
       description = js ''add helper'', sourcePath = None, destinationPath = None\<rparr>] \<and>
   suggestCodeActions example_unbound = []"
proof -
  let ?L = "js ''[/FILE_CONTENT]''"
  let ?A = "\<lambda>j. atype (actions example_state ! j) = CREATE_FILE"
  let ?B = "\<lambda>j. path (actions example_state ! j) = currentFilePath example_state"
  let ?C = "\<lambda>i. \<forall>j. i < j \<and> j < length (actions example_state) \<longrightarrow> \<not> (?A j \<and> ?B j)"
  have w1: "header_action ?L = None" by code_simp
  have w2: "fileContentStart ?L = None" by code_simp
  have w3: "fileContentEnd ?L" by code_simp
  have t: "trim (currentContent example_state) = js ''x = 1;''" by code_simp
  have len: "length (actions example_state) = 3" by (simp add: example_state_def)
  have h0: "?A 0" "?B 0" and h1: "?A 1" "?B 1" and h2: "\<not> ?A 2"
    by (simp_all add: example_state_def)
  note th = close_marker_binds_last_create_file[OF w1 w2 w3, of example_state]
  from th have l: "length (actions (parse_line example_state ?L)) = length (actions example_state)"
    by (elim conjE)
  from th have "\<forall>i < length (actions example_state).
        actions (parse_line example_state ?L) ! i =
          (if ?A i \<and> ?B i \<and> ?C i
           then (actions example_state ! i)\<lparr>content := Some (trim (currentContent example_state))\<rparr>
           else actions example_state ! i)"
    by (elim conjE)
  then have nth: "actions (parse_line example_state ?L) ! i =
          (if ?A i \<and> ?B i \<and> ?C i
           then (actions example_state ! i)\<lparr>content := Some (trim (currentContent example_state))\<rparr>
           else actions example_state ! i)" if "i < 3" for i
    using that len by (elim allE[of _ i] impE) simp_all
  have c1: "?C 1"
  proof (intro allI impI)
    fix j assume "1 < j \<and> j < length (actions example_state)"
    with len have "j = 2" by simp
    with h2 show "\<not> (?A j \<and> ?B j)" by blast
  qed
  have not0: "\<not> (?A 0 \<and> ?B 0 \<and> ?C 0)"
  proof
    assume "?A 0 \<and> ?B 0 \<and> ?C 0"
    then have "0 < (1::nat) \<and> 1 < length (actions example_state) \<longrightarrow> \<not> (?A 1 \<and> ?B 1)" by blast
    with len h1 show False by simp
  qed
  have not2: "\<not> (?A 2 \<and> ?B 2 \<and> ?C 2)"
    using h2 by blast
  have yes1: "?A 1 \<and> ?B 1 \<and> ?C 1"
    using h1 c1 by blast
  have a0: "actions (parse_line example_state ?L) ! 0 = actions example_state ! 0"
    using nth[of 0] by (simp only: if_not_P[OF not0])
  have a2: "actions (parse_line example_state ?L) ! 2 = actions example_state ! 2"
    using nth[of 2] by (simp only: if_not_P[OF not2])
  have a1: "actions (parse_line example_state ?L) ! 1 =
      (actions example_state ! 1)\<lparr>content := Some (js ''x = 1;'')\<rparr>"
    using nth[of 1] by (simp only: if_P[OF yes1] t)
  from l len have l3: "length (actions (parse_line example_state ?L)) = 3" by (simp only:)
  have s1: "suggestCodeActions example_scenario =
     [\<lparr>atype = CREATE_FILE, path = js ''src/x.js'', content = Some (js ''console.log(1);''),
       description = js ''add helper'', sourcePath = None, destinationPath = None\<rparr>]"
    by code_simp
  have s2: "suggestCodeActions example_unbound = []" by code_simp
  from w1 w2 w3 l3 a0 a1 a2 s1 s2 show ?thesis by (intro conjI)
qed

text \<open>
  C7, as the source has it. The claim reads: the content bound to the action is the
  interior of the block, every line reproduced with a newline after it, interior blank
  lines included. The loop appends a line only when \<^verbatim>\<open>line.trim()\<close> is not empty, so
  the lines that hold white space only are dropped, the interior ones too; and the ends
  of the whole buffer are trimmed of white space, not only of blank lines. Amended: for
  a block whose interior lines match no marker, the content bound to the last
  \<^verbatim>\<open>CREATE_FILE\<close> action with the path of the block is the concatenation of the
  interior lines that are not blank, each followed by a newline, with the white space
  at both ends removed.
\<close>

theorem content_block_binds_nonblank_lines:
  assumes "header_action opening = None" "fileContentStart opening = Some p"
    and "\<forall>l\<in>set body. header_action l = None \<and> fileContentStart l = None \<and> \<not> fileContentEnd l"
    and "header_action closing = None" "fileContentStart closing = None" "fileContentEnd closing"
    and "i < length (actions st)" "atype (actions st ! i) = CREATE_FILE" "path (actions st ! i) = p"
    and "\<forall>j. i < j \<and> j < length (actions st) \<longrightarrow>
           \<not> (atype (actions st ! j) = CREATE_FILE \<and> path (actions st ! j) = p)"
  shows "foldl parse_line st (opening # body @ [closing]) =
     \<lparr>actions = (actions st)[i := (actions st ! i)\<lparr>content :=
         Some (trim (concat (map (\<lambda>l. l @ [LF]) (filter (\<lambda>l. trim l \<noteq> []) body))))\<rparr>],
      currentContent = [], currentFilePath = []\<rparr>"
proof -
  from assms(7-10) have "lastCreateFileAction (actions st) p = Some (i, actions st ! i)"
    by (rule lastCreateFileAction_eq)
  with assms(1-6) show ?thesis by (rule content_block_fold)
qed

theorem content_block_binds_nonblank_lines_witness:
  "foldl parse_line example_created
     (js ''[FILE_CONTENT:src/x.js]''
      # [js ''console.log(1);'', [], js ''  done();''] @ [js ''[/FILE_CONTENT]'']) =
   \<lparr>actions =
      [\<lparr>atype = CREATE_FILE, path = js ''src/x.js'',
        content = Some (js ''console.log(1);'' @ [LF] @ js ''  done();''),
        description = js ''add helper'', sourcePath = None, destinationPath = None\<rparr>],
    currentContent = [], currentFilePath = []\<rparr>"
proof -
  let ?o = "js ''[FILE_CONTENT:src/x.js]''" and ?c = "js ''[/FILE_CONTENT]''"
  let ?body = "[js ''console.log(1);'', [], js ''  done();'']"
  have o: "header_action ?o = None" "fileContentStart ?o = Some (js ''src/x.js'')"
    by code_simp+
  have c: "header_action ?c = None" "fileContentStart ?c = None" "fileContentEnd ?c"
    by code_simp+
  have b1: "header_action (js ''console.log(1);'') = None \<and>
            fileContentStart (js ''console.log(1);'') = None \<and>
            \<not> fileContentEnd (js ''console.log(1);'')" by code_simp
  have b2: "header_action [] = None \<and> fileContentStart [] = None \<and> \<not> fileContentEnd []"
    by code_simp
  have b3: "header_action (js ''  done();'') = None \<and>
            fileContentStart (js ''  done();'') = None \<and>
            \<not> fileContentEnd (js ''  done();'')" by code_simp
  from b1 b2 b3 have b: "\<forall>l\<in>set ?body.
      header_action l = None \<and> fileContentStart l = None \<and> \<not> fileContentEnd l"
    by simp
  have a: "0 < length (actions example_created)"
    "atype (actions example_created ! 0) = CREATE_FILE"
    "path (actions example_created ! 0) = js ''src/x.js''"
    by (simp_all add: example_created_def)
  have m: "\<forall>j. 0 < j \<and> j < length (actions example_created) \<longrightarrow>
      \<not> (atype (actions example_created ! j) = CREATE_FILE \<and>
         path (actions example_created ! j) = js ''src/x.js'')"
    by (auto simp: example_created_def)
  have t: "trim (concat (map (\<lambda>l. l @ [LF]) (filter (\<lambda>l. trim l \<noteq> []) ?body))) =
      js ''console.log(1);'' @ [LF] @ js ''  done();''" by code_simp
  have u: "(actions example_created)[0 := (actions example_created ! 0)\<lparr>content :=
         Some (js ''console.log(1);'' @ [LF] @ js ''  done();'')\<rparr>] =
      [\<lparr>atype = CREATE_FILE, path = js ''src/x.js'',
        content = Some (js ''console.log(1);'' @ [LF] @ js ''  done();''),
        description = js ''add helper'', sourcePath = None, destinationPath = None\<rparr>]"
    by (simp add: example_created_def)
  from content_block_binds_nonblank_lines[OF o b c a m] show ?thesis
    by (simp only: t u)
qed

text \<open>
  The claim C7 as stated fails on the block with the lines \<^verbatim>\<open>a\<close>, an empty line and
  \<^verbatim>\<open>b\<close>: the content bound is \<^verbatim>\<open>a\<close>, a newline and \<^verbatim>\<open>b\<close>; the empty line between
  them is gone.
\<close>

theorem content_block_drops_blank_lines:
  "map content (suggestCodeActions example_block) = [Some (js ''a'' @ [LF] @ js ''b'')] \<and>
   map content (suggestCodeActions example_block) \<noteq> [Some (js ''a'' @ [LF, LF] @ js ''b'')]"
  by code_simp


section \<open>The parser is total and best effort\<close>

text \<open>
  C2, as the source has it. The claim reads: a malformed marker (a required field
  missing, brackets not balanced) produces no action. The expressions of the parser do
  not stop a path field at a bracket: the class \<^verbatim>\<open>[^:]\<close> takes \<^verbatim>\<open>]\<close> and \<^verbatim>\<open>[\<close> too, so
  a marker that lacks a field is completed by a later colon and closing bracket of the
  same line. Amended: the parser is a total function from the response to the list of
  actions: no operation of the loop (\<^verbatim>\<open>split\<close>, \<^verbatim>\<open>match\<close>, \<^verbatim>\<open>push\<close>, \<^verbatim>\<open>trim\<close>) throws
  on a string, so the model has no error result. The actions it returns are, in the
  order of the lines, the actions of the lines that match a header expression, and
  nothing else: up to the content bound later, one action for each such line. A line
  yields an action only when it holds an opening bracket, a label of the action's type, a
  colon, the fields of the action and a closing bracket, every field not empty, a path
  field any text without a colon and the description any text without a closing
  bracket. So a line with fewer than two colons, or without a closing or an opening
  bracket, yields no action, a line with fewer than three colons yields no move and no
  copy, and none of them an error.
\<close>

theorem parser_total_best_effort:
  "map no_content (suggestCodeActions response) =
     List.map_filter header_action (split LF response) \<and>
   (header_action line = Some a \<longrightarrow>
      content a = None \<and> spec_fields_present a \<and>
      (\<exists>pre post lab. lab \<in> set (spec_marker_labels (atype a)) \<and>
         line = pre @ js ''['' @ lab @ [colon] @ spec_marker_fields a @ [rbracket] @ post)) \<and>
   (count_list line colon < 2 \<or> rbracket \<notin> set line \<or> lbracket \<notin> set line \<longrightarrow>
      header_action line = None) \<and>
   (count_list line colon < 3 \<and> header_action line = Some a \<longrightarrow>
      atype a \<noteq> MOVE_FILE \<and> atype a \<noteq> COPY_FILE)"
proof (intro conjI impI)
  show "map no_content (suggestCodeActions response) =
     List.map_filter header_action (split LF response)"
    by (rule suggestCodeActions_headers)
next
  assume "header_action line = Some a"
  then show "content a = None" by (rule header_action_content)
next
  assume "header_action line = Some a"
  from header_action_sound[OF this] show "spec_fields_present a" by (rule conjunct1)
next
  assume "header_action line = Some a"
  from header_action_sound[OF this]
  show "\<exists>pre post lab. lab \<in> set (spec_marker_labels (atype a)) \<and>
         line = pre @ js ''['' @ lab @ [colon] @ spec_marker_fields a @ [rbracket] @ post"
    by (rule conjunct2)
next
  assume bad: "count_list line colon < 2 \<or> rbracket \<notin> set line \<or> lbracket \<notin> set line"
  show "header_action line = None"
  proof (cases "header_action line")
    case None
    then show ?thesis .
  next
    case (Some b)
    from header_action_sound[OF this] obtain pre post lab where
      "line = pre @ js ''['' @ lab @ [colon] @ spec_marker_fields b @ [rbracket] @ post" by blast
    from two_colons[OF this] bad show ?thesis by simp
  qed
next
  assume "count_list line colon < 3 \<and> header_action line = Some a"
  then have few: "count_list line colon < 3" and h: "header_action line = Some a" by simp_all
  from header_action_sound[OF h] obtain pre post lab where
    p: "spec_fields_present a"
    and l: "line = pre @ js ''['' @ lab @ [colon] @ spec_marker_fields a @ [rbracket] @ post"
    by blast
  from three_colons[OF p l] few
  show "atype a \<noteq> MOVE_FILE" and "atype a \<noteq> COPY_FILE" by auto
qed

theorem parser_total_best_effort_witness:
  "suggestCodeActions example_response = [example_move] \<and>
   header_action (js ''[MOVE_FILE:a:b:c]'') = Some example_move \<and>
   spec_fields_present example_move \<and>
   count_list (js ''[CREATE_FILE:onlypath]'') colon < 2 \<and>
   header_action (js ''[CREATE_FILE:onlypath]'') = None \<and>
   rbracket \<notin> set (js ''[DELETE_FILE:x:y'') \<and>
   header_action (js ''[DELETE_FILE:x:y'') = None \<and>
   count_list (js ''[MOVE_FILE:a:b]'') colon < 3 \<and>
   header_action (js ''[MOVE_FILE:a:b]'') = None"
proof -
  have r: "suggestCodeActions example_response = [example_move]" by code_simp
  have m: "header_action (js ''[MOVE_FILE:a:b:c]'') = Some example_move" by code_simp
  have c: "count_list (js ''[CREATE_FILE:onlypath]'') colon < 2" by code_simp
  have b: "rbracket \<notin> set (js ''[DELETE_FILE:x:y'')" by code_simp
  have t: "count_list (js ''[MOVE_FILE:a:b]'') colon < 3" by code_simp
  have n: "header_action (js ''[MOVE_FILE:a:b]'') = None" by code_simp
  from parser_total_best_effort[of example_response "js ''[MOVE_FILE:a:b:c]''" example_move] m
  have 1: "spec_fields_present example_move" by blast
  from parser_total_best_effort[of example_response "js ''[CREATE_FILE:onlypath]''" example_move] c
  have 2: "header_action (js ''[CREATE_FILE:onlypath]'') = None" by blast
  from parser_total_best_effort[of example_response "js ''[DELETE_FILE:x:y''" example_move] b
  have 3: "header_action (js ''[DELETE_FILE:x:y'') = None" by blast
  from r m 1 c 2 b 3 t n show ?thesis by (intro conjI)
qed

text \<open>
  The claim C2 as stated fails for two lines whose marker lacks a required field: the
  marker \<^verbatim>\<open>[CREATE_FILE:onlypath]\<close> has no description and the marker
  \<^verbatim>\<open>[MOVE_FILE:a:b]\<close> has two of its three fields, and each line yields an action all the
  same, with a field that runs across the closing bracket of the marker into the text
  after it.
\<close>

theorem incomplete_marker_yields_action:
  "suggestCodeActions (js ''[CREATE_FILE:onlypath] then [x:y]'') =
     [\<lparr>atype = CREATE_FILE, path = js ''onlypath] then [x'', content = None,
       description = js ''y'', sourcePath = None, destinationPath = None\<rparr>] \<and>
   suggestCodeActions (js ''[MOVE_FILE:a:b] see [note:1]'') =
     [\<lparr>atype = MOVE_FILE, path = js ''a'', content = None, description = js ''1'',
       sourcePath = Some (js ''a''), destinationPath = Some (js ''b] see [note'')\<rparr>]"
  by code_simp

section \<open>Alias normalisation\<close>



section \<open>The executor: paths\<close>




section \<open>The executor: results\<close>

text \<open>
  C4, as the source has it. The claim reads: every action, when it succeeds, returns a
  message, a string. \<^verbatim>\<open>editFile\<close> is declared \<^verbatim>\<open>Promise<boolean>\<close> and returns
  \<^verbatim>\<open>true\<close>. Amended: the methods for creating, deleting, moving and copying return, on
  success, the message that names the operation and its paths; \<^verbatim>\<open>editFile\<close> returns
  the boolean \<^verbatim>\<open>true\<close>.
\<close>

theorem success_results:
  "(createFile h fs p c = (Inr v, fs') \<longrightarrow>
      v = JString (js ''File '' @ p @ js '' created successfully'')) \<and>
   (createDirectory h fs p = (Inr v, fs') \<longrightarrow>
      v = JString (js ''Directory '' @ p @ js '' already exists'') \<or>
      v = JString (js ''Directory '' @ p @ js '' created successfully'')) \<and>
   (deleteFile h fs p = (Inr v, fs') \<longrightarrow>
      v = JString (js ''File '' @ p @ js '' deleted successfully'')) \<and>
   (deleteDirectory h fs p = (Inr v, fs') \<longrightarrow>
      v = JString (js ''Directory '' @ p @ js '' deleted successfully'')) \<and>
   (moveFile h fs p d = (Inr v, fs') \<longrightarrow>
      v = JString (js ''File moved from '' @ p @ js '' to '' @ d)) \<and>
   (copyFile h fs p d = (Inr v, fs') \<longrightarrow>
      v = JString (js ''File copied from '' @ p @ js '' to '' @ d)) \<and>
   (editFile h fs p c = (Inr v, fs') \<longrightarrow> v = JBoolean True)"
  by (intro conjI impI) (erule method_results)+

theorem success_results_witness:
  "moveFile example_host example_fs (js ''notes.txt'') (js ''arch/n.txt'') =
     (Inr (JString (js ''File moved from '' @ js ''notes.txt'' @ js '' to '' @ js ''arch/n.txt'')),
      [([js ''work''], Dir), ([js ''secret.txt''], File (js ''key'')),
       ([js ''work'', js ''arch''], Dir),
       ([js ''work'', js ''arch'', js ''n.txt''], File (js ''old''))]) \<and>
   editFile example_host example_fs (js ''notes.txt'') (js ''new'') =
     (Inr (JBoolean True),
      [([js ''work''], Dir), ([js ''work'', js ''notes.txt''], File (js ''new'')),
       ([js ''secret.txt''], File (js ''key''))])"
proof -
  let ?fs1 = "[([js ''work''], Dir), ([js ''secret.txt''], File (js ''key'')),
       ([js ''work'', js ''arch''], Dir),
       ([js ''work'', js ''arch'', js ''n.txt''], File (js ''old''))]"
  let ?fs2 = "[([js ''work''], Dir), ([js ''work'', js ''notes.txt''], File (js ''new'')),
       ([js ''secret.txt''], File (js ''key''))]"
  have mv: "moveFile example_host example_fs (js ''notes.txt'') (js ''arch/n.txt'') =
     (Inr (JString (js ''File moved from notes.txt to arch/n.txt'')), ?fs1)" by code_simp
  have ed: "editFile example_host example_fs (js ''notes.txt'') (js ''new'') =
     (Inr (JBoolean True), ?fs2)" by code_simp
  from success_results[of example_host example_fs "js ''notes.txt''" _
      "JString (js ''File moved from notes.txt to arch/n.txt'')" ?fs1 "js ''arch/n.txt''"] mv
  have "JString (js ''File moved from notes.txt to arch/n.txt'') =
      JString (js ''File moved from '' @ js ''notes.txt'' @ js '' to '' @ js ''arch/n.txt'')"
    by blast
  with mv ed show ?thesis by (simp only:) 
qed

text \<open>
  The claim C4 as stated fails for \<^verbatim>\<open>editFile\<close> on an existing file: the result is the
  boolean \<^verbatim>\<open>true\<close>, which is no string.
\<close>

theorem editFile_returns_boolean:
  "fst (editFile example_host example_fs (js ''notes.txt'') (js ''new'')) = Inr (JBoolean True) \<and>
   (\<nexists>s. fst (editFile example_host example_fs (js ''notes.txt'') (js ''new'')) = Inr (JString s))"
proof -
  have e: "fst (editFile example_host example_fs (js ''notes.txt'') (js ''new'')) =
      Inr (JBoolean True)" by code_simp
  then show ?thesis by simp
qed

section \<open>The executor: editing a file\<close>

text \<open>
  C5. With a workspace folder open: when the path names a regular file, \<^verbatim>\<open>editFile\<close>
  replaces its whole content by the new content, written in UTF-8 (the file system
  afterwards is the one before with the file updated, also when the editor then fails to
  open the file); when
  the path does not exist, \<^verbatim>\<open>editFile\<close> throws the error
  \<^verbatim>\<open>File ... does not exist\<close> and the file system is unchanged, so no file is created.
\<close>

theorem editFile_overwrites_or_not_found:
  assumes "workspaceFolders h = root # others"
  shows
   "(stat fs (path_join root p) = Some (File old) \<longrightarrow>
       editFile h fs p c =
         (if showTextDocument h (path_join root p) then Inr (JBoolean True) else Inl EditorError,
          AList.update (segs (path_join root p)) (File (toWellFormed c)) fs) \<and>
       stat (snd (editFile h fs p c)) (path_join root p) = Some (File (toWellFormed c))) \<and>
    (\<not> existsSync fs (path_join root p) \<longrightarrow>
       editFile h fs p c = (Inl (Error (js ''File '' @ p @ js '' does not exist'')), fs))"
proof (intro conjI impI)
  assume f: "stat fs (path_join root p) = Some (File old)"
  from editFile_existing(1)[OF assms f]
  show e: "editFile h fs p c =
         (if showTextDocument h (path_join root p) then Inr (JBoolean True) else Inl EditorError,
          AList.update (segs (path_join root p)) (File (toWellFormed c)) fs)" .
  from editFile_existing(2)[OF assms f]
  show "stat (snd (editFile h fs p c)) (path_join root p) = Some (File (toWellFormed c))"
    by (simp add: e)
next
  assume "\<not> existsSync fs (path_join root p)"
  with assms show "editFile h fs p c =
      (Inl (Error (js ''File '' @ p @ js '' does not exist'')), fs)"
    by (rule editFile_missing)
qed

theorem editFile_overwrites_or_not_found_witness:
  "workspaceFolders example_host = [js ''work''] # [] \<and>
   stat example_fs (path_join [js ''work''] (js ''notes.txt'')) = Some (File (js ''old'')) \<and>
   stat (snd (editFile example_host example_fs (js ''notes.txt'') (js ''new'')))
     (path_join [js ''work''] (js ''notes.txt'')) = Some (File (js ''new'')) \<and>
   \<not> existsSync example_fs (path_join [js ''work''] (js ''missing.txt'')) \<and>
   editFile example_host example_fs (js ''missing.txt'') (js ''new'') =
     (Inl (Error (js ''File '' @ js ''missing.txt'' @ js '' does not exist'')), example_fs)"
proof -
  have w: "workspaceFolders example_host = [js ''work''] # []" by (simp add: example_host_def)
  have f: "stat example_fs (path_join [js ''work''] (js ''notes.txt'')) = Some (File (js ''old''))"
    by code_simp
  have m: "\<not> existsSync example_fs (path_join [js ''work''] (js ''missing.txt''))" by code_simp
  note th = editFile_overwrites_or_not_found[OF w]
  have u: "toWellFormed (js ''new'') = js ''new''" by code_simp
  from th[of example_fs "js ''notes.txt''" "js ''old''" "js ''new''"] f
  have "stat (snd (editFile example_host example_fs (js ''notes.txt'') (js ''new'')))
     (path_join [js ''work''] (js ''notes.txt'')) = Some (File (toWellFormed (js ''new'')))"
    by blast
  then have 1: "stat (snd (editFile example_host example_fs (js ''notes.txt'') (js ''new'')))
     (path_join [js ''work''] (js ''notes.txt'')) = Some (File (js ''new''))"
    by (simp only: u)
  from th[of example_fs "js ''missing.txt''" _ "js ''new''"] m
  have 2: "editFile example_host example_fs (js ''missing.txt'') (js ''new'') =
     (Inl (Error (js ''File '' @ js ''missing.txt'' @ js '' does not exist'')), example_fs)" by blast
  from w f 1 m 2 show ?thesis by (intro conjI)
qed

section \<open>The executor: creating a file\<close>

text \<open>
  C6, as the source has it. The claim reads: for every content, a read of the path
  after \<^verbatim>\<open>createFile\<close> returns exactly that content. The file is written and read in
  UTF-8, where a surrogate code unit without its partner has no encoding. Amended:
  whenever \<^verbatim>\<open>createFile\<close> succeeds, reading the path afterwards with
  \<^verbatim>\<open>getFileContent\<close> returns the content written with every unpaired surrogate
  replaced by U+FFFD, which is exactly the content written when it holds no surrogate,
  and the directory of the file exists. It succeeds without any directory created
  before: it is enough that the path holds no code unit 0, is not the root directory of
  the file system and does not end in a separator, that no ancestor of it is a regular
  file, and that it is not itself a directory; a regular file already at the path is
  overwritten.
\<close>

theorem createFile_round_trip:
  "(createFile h fs p c = (Inr v, fs') \<longrightarrow>
      (\<exists>root others. workspaceFolders h = root # others \<and>
         getFileContent h fs' p = (Inr (toWellFormed c), fs') \<and>
         stat fs' (dirname (path_join root p)) = Some Dir)) \<and>
   (list_all (\<lambda>x. \<not> isHighSurrogate x \<and> \<not> isLowSurrogate x) c \<longrightarrow> toWellFormed c = c) \<and>
   (workspaceFolders h = root # others \<and> \<not> has_nul (path_join root p) \<and>
    segs (path_join root p) \<noteq> [] \<and> \<not> trailing (path_join root p) \<and>
    \<not> list_ex (\<lambda>q. is_file (map_of fs q)) (chain (butlast (segs (path_join root p)))) \<and>
    map_of fs (segs (path_join root p)) \<noteq> Some Dir \<longrightarrow>
      (\<exists>fs'. createFile h fs p c =
         (Inr (JString (js ''File '' @ p @ js '' created successfully'')), fs')))"
proof (intro conjI impI)
  assume "createFile h fs p c = (Inr v, fs')"
  from createFile_result[OF this] obtain root others where
    w: "workspaceFolders h = root # others"
    and f: "stat fs' (path_join root p) = Some (File (toWellFormed c))"
    and d: "stat fs' (dirname (path_join root p)) = Some Dir" by blast
  from getFileContent_file[OF w f]
  have "getFileContent h fs' p = (Inr (toWellFormed c), fs')" by (simp only: toWellFormed_idem)
  with w d
  show "\<exists>root others. workspaceFolders h = root # others \<and>
         getFileContent h fs' p = (Inr (toWellFormed c), fs') \<and>
         stat fs' (dirname (path_join root p)) = Some Dir" by blast
next
  assume "list_all (\<lambda>x. \<not> isHighSurrogate x \<and> \<not> isLowSurrogate x) c"
  then show "toWellFormed c = c" by (rule toWellFormed_no_surrogate)
next
  assume "workspaceFolders h = root # others \<and> \<not> has_nul (path_join root p) \<and>
    segs (path_join root p) \<noteq> [] \<and> \<not> trailing (path_join root p) \<and>
    \<not> list_ex (\<lambda>q. is_file (map_of fs q)) (chain (butlast (segs (path_join root p)))) \<and>
    map_of fs (segs (path_join root p)) \<noteq> Some Dir"
  then show "\<exists>fs'. createFile h fs p c =
         (Inr (JString (js ''File '' @ p @ js '' created successfully'')), fs')"
    by (elim conjE) (rule createFile_succeeds)
qed

theorem createFile_round_trip_witness:
  "createFile example_host example_fs (js ''a/b.txt'') (js ''hello'') =
     (Inr (JString (js ''File a/b.txt created successfully'')),
      example_fs @ [([js ''work'', js ''a''], Dir),
                    ([js ''work'', js ''a'', js ''b.txt''], File (js ''hello''))]) \<and>
   list_all (\<lambda>x. \<not> isHighSurrogate x \<and> \<not> isLowSurrogate x) (js ''hello'') \<and>
   getFileContent example_host
     (example_fs @ [([js ''work'', js ''a''], Dir),
                    ([js ''work'', js ''a'', js ''b.txt''], File (js ''hello''))])
     (js ''a/b.txt'') =
     (Inr (js ''hello''),
      example_fs @ [([js ''work'', js ''a''], Dir),
                    ([js ''work'', js ''a'', js ''b.txt''], File (js ''hello''))]) \<and>
   stat (example_fs @ [([js ''work'', js ''a''], Dir),
                       ([js ''work'', js ''a'', js ''b.txt''], File (js ''hello''))])
     \<lparr>segs = [js ''work'', js ''a''], trailing = False\<rparr> = Some Dir \<and>
   \<not> has_nul (path_join [js ''work''] (js ''a/b.txt'')) \<and>
   segs (path_join [js ''work''] (js ''a/b.txt'')) \<noteq> [] \<and>
   \<not> trailing (path_join [js ''work''] (js ''a/b.txt'')) \<and>
   \<not> list_ex (\<lambda>q. is_file (map_of example_fs q))
        (chain (butlast (segs (path_join [js ''work''] (js ''a/b.txt''))))) \<and>
   map_of example_fs (segs (path_join [js ''work''] (js ''a/b.txt''))) \<noteq> Some Dir \<and>
   (\<exists>fs'. createFile example_host example_fs (js ''a/b.txt'') (js ''hello'') =
      (Inr (JString (js ''File '' @ js ''a/b.txt'' @ js '' created successfully'')), fs'))"
proof -
  let ?fs' = "example_fs @ [([js ''work'', js ''a''], Dir),
                    ([js ''work'', js ''a'', js ''b.txt''], File (js ''hello''))]"
  have run: "createFile example_host example_fs (js ''a/b.txt'') (js ''hello'') =
     (Inr (JString (js ''File a/b.txt created successfully'')), ?fs')" by code_simp
  have w: "workspaceFolders example_host = [[js ''work'']]" by (simp add: example_host_def)
  have d: "dirname (path_join [js ''work''] (js ''a/b.txt'')) =
      \<lparr>segs = [js ''work'', js ''a''], trailing = False\<rparr>" by code_simp
  have ns: "list_all (\<lambda>x. \<not> isHighSurrogate x \<and> \<not> isLowSurrogate x) (js ''hello'')"
    by code_simp
  note th = createFile_round_trip[of example_host example_fs "js ''a/b.txt''" "js ''hello''"]
  from th[of "JString (js ''File a/b.txt created successfully'')" ?fs'] ns
  have u: "toWellFormed (js ''hello'') = js ''hello''" by blast
  from th[of "JString (js ''File a/b.txt created successfully'')" ?fs'] run
  obtain root others where "workspaceFolders example_host = root # others"
    and g: "getFileContent example_host ?fs' (js ''a/b.txt'')
              = (Inr (toWellFormed (js ''hello'')), ?fs')"
    and s: "stat ?fs' (dirname (path_join root (js ''a/b.txt''))) = Some Dir" by blast
  with w have "root = [js ''work'']" by simp
  with s d have "stat ?fs' \<lparr>segs = [js ''work'', js ''a''], trailing = False\<rparr> = Some Dir"
    by (simp only:)
  moreover from g have g': "getFileContent example_host ?fs' (js ''a/b.txt'')
      = (Inr (js ''hello''), ?fs')" by (simp only: u)
  moreover have h: "\<not> has_nul (path_join [js ''work''] (js ''a/b.txt''))"
    "segs (path_join [js ''work''] (js ''a/b.txt'')) \<noteq> []"
    "\<not> trailing (path_join [js ''work''] (js ''a/b.txt''))"
    "\<not> list_ex (\<lambda>q. is_file (map_of example_fs q))
        (chain (butlast (segs (path_join [js ''work''] (js ''a/b.txt'')))))"
    "map_of example_fs (segs (path_join [js ''work''] (js ''a/b.txt''))) \<noteq> Some Dir"
    by code_simp+
  moreover from th[of _ _ "[js ''work'']" "[]"] w h
  have "\<exists>fs'. createFile example_host example_fs (js ''a/b.txt'') (js ''hello'') =
      (Inr (JString (js ''File '' @ js ''a/b.txt'' @ js '' created successfully'')), fs')"
    by blast
  ultimately show ?thesis using run ns by (intro conjI)
qed

text \<open>
  The claim C6 as stated fails for a content that is one high surrogate, the code unit
  U+D800: \<^verbatim>\<open>createFile\<close> succeeds, and the read that follows returns U+FFFD, which is
  not the content written.
\<close>

theorem createFile_unpaired_surrogate:
  "createFile example_host example_fs (js ''s.txt'') [55296] =
     (Inr (JString (js ''File s.txt created successfully'')),
      example_fs @ [([js ''work'', js ''s.txt''], File [65533])]) \<and>
   getFileContent example_host (example_fs @ [([js ''work'', js ''s.txt''], File [65533])])
     (js ''s.txt'') =
     (Inr [65533], example_fs @ [([js ''work'', js ''s.txt''], File [65533])]) \<and>
   [65533] \<noteq> [55296 :: nat]"
  by code_simp

section \<open>The executor: creating a directory\<close>




section \<open>The executor: missing paths\<close>

text \<open>
  C10. With a workspace folder open: when the path that \<^verbatim>\<open>deleteFile\<close>,
  \<^verbatim>\<open>deleteDirectory\<close> or \<^verbatim>\<open>editFile\<close> needs, or the source of \<^verbatim>\<open>moveFile\<close> or
  \<^verbatim>\<open>copyFile\<close>, does not exist, the method throws its \<^verbatim>\<open>does not exist\<close> error and
  the file system at that moment is the one the method started with: the test comes
  before every write.
\<close>

theorem missing_path_leaves_filesystem:
  assumes "workspaceFolders h = root # others"
  shows
   "(\<not> existsSync fs (path_join root p) \<longrightarrow>
       deleteFile h fs p = (Inl (Error (js ''File '' @ p @ js '' does not exist'')), fs) \<and>
       deleteDirectory h fs p =
         (Inl (Error (js ''Directory '' @ p @ js '' does not exist'')), fs) \<and>
       editFile h fs p c = (Inl (Error (js ''File '' @ p @ js '' does not exist'')), fs) \<and>
       moveFile h fs p d =
         (Inl (Error (js ''Source file '' @ p @ js '' does not exist'')), fs) \<and>
       copyFile h fs p d =
         (Inl (Error (js ''Source file '' @ p @ js '' does not exist'')), fs))"
proof (intro impI conjI)
  assume m: "\<not> existsSync fs (path_join root p)"
  from assms m show "deleteFile h fs p =
      (Inl (Error (js ''File '' @ p @ js '' does not exist'')), fs)"
    by (rule deleteFile_missing)
  from assms m show "deleteDirectory h fs p =
      (Inl (Error (js ''Directory '' @ p @ js '' does not exist'')), fs)"
    by (rule deleteDirectory_missing)
  from assms m show "editFile h fs p c =
      (Inl (Error (js ''File '' @ p @ js '' does not exist'')), fs)"
    by (rule editFile_missing)
  from assms m show "moveFile h fs p d =
      (Inl (Error (js ''Source file '' @ p @ js '' does not exist'')), fs)"
    by (rule moveFile_missing)
  from assms m show "copyFile h fs p d =
      (Inl (Error (js ''Source file '' @ p @ js '' does not exist'')), fs)"
    by (rule copyFile_missing)
qed

theorem missing_path_leaves_filesystem_witness:
  "workspaceFolders example_host = [js ''work''] # [] \<and>
   \<not> existsSync example_fs (path_join [js ''work''] (js ''missing.txt'')) \<and>
   deleteFile example_host example_fs (js ''missing.txt'') =
     (Inl (Error (js ''File '' @ js ''missing.txt'' @ js '' does not exist'')), example_fs) \<and>
   deleteDirectory example_host example_fs (js ''missing.txt'') =
     (Inl (Error (js ''Directory '' @ js ''missing.txt'' @ js '' does not exist'')), example_fs) \<and>
   editFile example_host example_fs (js ''missing.txt'') (js ''new'') =
     (Inl (Error (js ''File '' @ js ''missing.txt'' @ js '' does not exist'')), example_fs) \<and>
   moveFile example_host example_fs (js ''missing.txt'') (js ''new/place.txt'') =
     (Inl (Error (js ''Source file '' @ js ''missing.txt'' @ js '' does not exist'')), example_fs) \<and>
   copyFile example_host example_fs (js ''missing.txt'') (js ''new/place.txt'') =
     (Inl (Error (js ''Source file '' @ js ''missing.txt'' @ js '' does not exist'')), example_fs)"
proof -
  have w: "workspaceFolders example_host = [js ''work''] # []" by (simp add: example_host_def)
  have m: "\<not> existsSync example_fs (path_join [js ''work''] (js ''missing.txt''))" by code_simp
  from missing_path_leaves_filesystem[OF w, of example_fs "js ''missing.txt''" "js ''new''"
      "js ''new/place.txt''"] m w
  show ?thesis by blast
qed

end
